theory Spec2Isabelle
  imports Complex_Main
begin

section \<open>The presenter's deck state (src/app.js)\<close>

text \<open>
  The program keeps one global variable \<^verbatim>\<open>state\<close>. At startup and after an
  import it holds whatever \<^verbatim>\<open>JSON.parse\<close> returned (repaired by the
  program), so the model has two levels:
  \<^item> \<open>jsval\<close>, the values \<^verbatim>\<open>JSON.parse\<close> can return, on which \<^verbatim>\<open>load\<close>
    and the import callback work;
  \<^item> \<open>deck\<close>, a well-typed state (slides with string id and text, an integer
    current), on which \<^verbatim>\<open>goTo\<close>, \<^verbatim>\<open>addSlide\<close>, \<^verbatim>\<open>deleteSlide\<close> and the
    text input handler work; \<open>val_of_deck\<close> embeds it in \<open>jsval\<close>.
\<close>

subsection \<open>JavaScript values\<close>

text \<open>
  A JavaScript number is a finite value, an infinity or NaN. The finite doubles are
  rationals, so \<open>real\<close> holds them all; the program only compares numbers and takes
  their minimum and maximum, which is exact. \<^verbatim>\<open>-0\<close> is identified with \<^verbatim>\<open>0\<close>
  (both are falsy, and \<^verbatim>\<open>Math.max(0, -0)\<close> is \<^verbatim>\<open>0\<close>).
\<close>

datatype jsnum = Fin real | PosInf | NegInf | NaN

text \<open>
  An object is the list of its own properties in insertion order (keys are distinct);
  \<open>JUndefined\<close> is what a missing property reads as, \<^verbatim>\<open>JSON.parse\<close> never
  returns it.
\<close>

datatype jsval =
    JUndefined
  | JNull
  | JBool bool
  | JNum jsnum
  | JStr string
  | JArr "jsval list"
  | JObj "(string \<times> jsval) list"

datatype js_error = SyntaxError | TypeError | FormatError

text \<open>
  \<^verbatim>\<open>v.k\<close> for the keys the program reads (\<^verbatim>\<open>slides\<close>, \<^verbatim>\<open>current\<close>,
  \<^verbatim>\<open>id\<close>, \<^verbatim>\<open>text\<close>; no prototype defines any of them): a TypeError (\<open>None\<close>)
  on \<^verbatim>\<open>null\<close> and \<^verbatim>\<open>undefined\<close>, \<^verbatim>\<open>undefined\<close> on every other value
  that has no such own property.
\<close>

fun get_prop :: "jsval \<Rightarrow> string \<Rightarrow> jsval option" where
  "get_prop JUndefined k = None"
| "get_prop JNull k = None"
| "get_prop (JObj kvs) k = Some (case map_of kvs k of None \<Rightarrow> JUndefined | Some v \<Rightarrow> v)"
| "get_prop v k = Some JUndefined"

text \<open>\<^verbatim>\<open>o.k = v\<close> on an object: an own property keeps its place, a new one goes last.\<close>

fun assign :: "string \<Rightarrow> jsval \<Rightarrow> (string \<times> jsval) list \<Rightarrow> (string \<times> jsval) list" where
  "assign k v [] = [(k, v)]"
| "assign k v (p # ps) = (if fst p = k then (k, v) # ps else p # assign k v ps)"

text \<open>
  The program assigns properties only to \<^verbatim>\<open>state\<close> after it has found an array
  under \<^verbatim>\<open>state.slides\<close>, so the target is an object; other values are left as
  they are.
\<close>

fun set_prop :: "jsval \<Rightarrow> string \<Rightarrow> jsval \<Rightarrow> jsval" where
  "set_prop (JObj kvs) k v = JObj (assign k v kvs)"
| "set_prop u k v = u"

text \<open>Truthiness, as \<^verbatim>\<open>||\<close> and \<^verbatim>\<open>if\<close> test it.\<close>

fun truthy :: "jsval \<Rightarrow> bool" where
  "truthy JUndefined = False"
| "truthy JNull = False"
| "truthy (JBool b) = b"
| "truthy (JNum (Fin r)) = (r \<noteq> 0)"
| "truthy (JNum NaN) = False"
| "truthy (JNum PosInf) = True"
| "truthy (JNum NegInf) = True"
| "truthy (JStr s) = (s \<noteq> [])"
| "truthy (JArr xs) = True"
| "truthy (JObj kvs) = True"

text \<open>\<^verbatim>\<open>a || b\<close>\<close>

definition or_else :: "jsval \<Rightarrow> jsval \<Rightarrow> jsval" where
  "or_else a b = (if truthy a then a else b)"

text \<open>\<^verbatim>\<open>Math.max\<close> and \<^verbatim>\<open>Math.min\<close> of two numbers: NaN if either is NaN.\<close>

fun num_le :: "jsnum \<Rightarrow> jsnum \<Rightarrow> bool" where
  "num_le NegInf b = True"
| "num_le a PosInf = True"
| "num_le (Fin x) (Fin y) = (x \<le> y)"
| "num_le a b = False"

definition Math_max :: "jsnum \<Rightarrow> jsnum \<Rightarrow> jsnum" where
  "Math_max a b = (if a = NaN \<or> b = NaN then NaN else if num_le a b then b else a)"

definition Math_min :: "jsnum \<Rightarrow> jsnum \<Rightarrow> jsnum" where
  "Math_min a b = (if a = NaN \<or> b = NaN then NaN else if num_le a b then a else b)"

subsection \<open>The runtime\<close>

text \<open>
  What the program calls and does not define is a parameter of the model:
  \<^item> \<open>JSON_parse\<close>: \<^verbatim>\<open>JSON.parse\<close>, \<open>None\<close> when it throws a SyntaxError;
  \<^item> \<open>JSON_stringify\<close>: \<^verbatim>\<open>JSON.stringify\<close>;
  \<^item> \<open>gen\<close>: the value of the n-th call of \<^verbatim>\<open>genId()\<close>, which reads the clock and
    \<^verbatim>\<open>Math.random\<close>;
  \<^item> \<open>ToNumber_obj\<close>: the number a string, an array or an object is converted to
    when \<^verbatim>\<open>Math.max\<close> receives it (the runtime parses its string form), \<open>None\<close>
    when the conversion throws a TypeError;
  \<^item> \<open>ToString_throws\<close>: whether converting an array or an object to a string
    throws a TypeError (assigning it to \<^verbatim>\<open>innerText\<close> converts it).
\<close>

record env =
  JSON_parse :: "string \<Rightarrow> jsval option"
  JSON_stringify :: "jsval \<Rightarrow> string"
  gen :: "nat \<Rightarrow> string"
  ToNumber_obj :: "jsval \<Rightarrow> jsnum option"
  ToString_throws :: "jsval \<Rightarrow> bool"

text \<open>The conversion of an argument of \<^verbatim>\<open>Math.max\<close> to a number.\<close>

fun ToNumber :: "env \<Rightarrow> jsval \<Rightarrow> jsnum option" where
  "ToNumber E JUndefined = Some NaN"
| "ToNumber E JNull = Some (Fin 0)"
| "ToNumber E (JBool b) = Some (Fin (if b then 1 else 0))"
| "ToNumber E (JNum n) = Some n"
| "ToNumber E v = ToNumber_obj E v"

subsection \<open>The world: the global state, the storage item, the id generator\<close>

text \<open>
  \<open>state\<close> is the global \<^verbatim>\<open>state\<close>; \<open>storage\<close> is the item of
  \<^verbatim>\<open>localStorage\<close> under \<^verbatim>\<open>STORAGE_KEY\<close> (\<open>None\<close> when there is none);
  \<open>writes\<close> counts the calls of \<^verbatim>\<open>localStorage.setItem\<close>; \<open>next_id\<close> counts
  the calls of \<^verbatim>\<open>genId\<close>. The DOM (slide elements, buttons, focus) is not part of
  the model, except where building it can throw.
\<close>

record 's world =
  state :: 's
  storage :: "string option"
  writes :: nat
  next_id :: nat

definition genId :: "env \<Rightarrow> 's world \<Rightarrow> string \<times> 's world" where
  "genId E w = (gen E (next_id w), w\<lparr>next_id := Suc (next_id w)\<rparr>)"

text \<open>
  The text of the default slide (a Spanish title line, two newlines and a hint line),
  as the UTF-8 bytes of the source literal: its three accented letters are two bytes each.
\<close>

definition default_text :: string where
  "default_text =
     ''T'' @ [CHR 0xC3, CHR 0xAD] @ ''tulo de la presentaci'' @ [CHR 0xC3, CHR 0xB3] @ ''n''
     @ [CHR 0x0A, CHR 0x0A] @ ''Haz doble clic aqu'' @ [CHR 0xC3, CHR 0xAD] @ '' para editar.''"

text \<open>
  \<^verbatim>\<open>defaultSlides\<close> is built once, when the script starts: its slide carries the
  value of the first call of \<^verbatim>\<open>genId\<close>, and the world the other functions start
  in has \<open>next_id = 1\<close>.
\<close>

definition defaultSlides :: "env \<Rightarrow> jsval list" where
  "defaultSlides E = [JObj [(''id'', JStr (gen E 0)), (''text'', JStr default_text)]]"

text \<open>\<^verbatim>\<open>{ slides: defaultSlides.slice(), current: 0 }\<close>\<close>

definition default_state :: "env \<Rightarrow> jsval" where
  "default_state E = JObj [(''slides'', JArr (defaultSlides E)), (''current'', JNum (Fin 0))]"

subsection \<open>load, save, updateUI, init\<close>

text \<open>
  \<^verbatim>\<open>Math.min(Math.max(0, st.current||0), st.slides.length-1)\<close> for a state \<open>st\<close>
  whose \<^verbatim>\<open>slides\<close> is an array of \<open>n\<close> elements; \<open>None\<close> when the conversion of
  \<^verbatim>\<open>current\<close> throws.
\<close>

definition clamp_current :: "env \<Rightarrow> jsval \<Rightarrow> nat \<Rightarrow> jsnum option" where
  "clamp_current E st n =
     (case get_prop st ''current'' of
        None \<Rightarrow> None
      | Some c \<Rightarrow>
          (case ToNumber E (or_else c (JNum (Fin 0))) of
             None \<Rightarrow> None
           | Some x \<Rightarrow> Some (Math_min (Math_max (Fin 0) x) (Fin (real n - 1)))))"

text \<open>
  \<^verbatim>\<open>load\<close>: every exception of the \<^verbatim>\<open>try\<close> block (a SyntaxError of
  \<^verbatim>\<open>JSON.parse\<close>, a TypeError of \<^verbatim>\<open>state.slides\<close> on \<^verbatim>\<open>null\<close> or of the
  conversion of \<^verbatim>\<open>current\<close>) is caught and logged, and the default state is
  taken. An item that is the empty string is falsy, like a missing one.
\<close>

definition load :: "env \<Rightarrow> jsval world \<Rightarrow> jsval world" where
  "load E w =
     (case storage w of
        None \<Rightarrow> w\<lparr>state := default_state E\<rparr>
      | Some raw \<Rightarrow>
          if raw = [] then w\<lparr>state := default_state E\<rparr>
          else
            (case JSON_parse E raw of
               None \<Rightarrow> w\<lparr>state := default_state E\<rparr>
             | Some st \<Rightarrow>
                 (case get_prop st ''slides'' of
                    None \<Rightarrow> w\<lparr>state := default_state E\<rparr>
                  | Some (JArr xs) \<Rightarrow>
                      if length xs = 0 then w\<lparr>state := default_state E\<rparr>
                      else
                        (case clamp_current E st (length xs) of
                           None \<Rightarrow> w\<lparr>state := default_state E\<rparr>
                         | Some c \<Rightarrow> w\<lparr>state := set_prop st ''current'' (JNum c)\<rparr>)
                  | Some _ \<Rightarrow> w\<lparr>state := default_state E\<rparr>)))"

text \<open>\<^verbatim>\<open>save\<close>: \<^verbatim>\<open>localStorage.setItem(STORAGE_KEY, JSON.stringify(state))\<close>\<close>

definition save :: "env \<Rightarrow> jsval world \<Rightarrow> jsval world" where
  "save E w = w\<lparr>storage := Some (JSON_stringify E (state w)), writes := Suc (writes w)\<rparr>"

text \<open>
  \<^verbatim>\<open>updateUI\<close> sets the index display and the buttons (not modelled) and calls
  \<^verbatim>\<open>save\<close>.
\<close>

definition updateUI :: "env \<Rightarrow> jsval world \<Rightarrow> jsval world" where
  "updateUI E w = save E w"

text \<open>
  \<^verbatim>\<open>renderSlides\<close> builds one element per slide and runs
  \<^verbatim>\<open>text.innerText = s.text || ''\<close> on each: \<^verbatim>\<open>s.text\<close> throws a TypeError when
  \<open>s\<close> is \<^verbatim>\<open>null\<close>, and the assignment converts the value to a string, which can
  throw for an array or an object. The elements themselves are not modelled, only
  whether the call throws.
\<close>

fun slide_render_throws :: "env \<Rightarrow> jsval \<Rightarrow> bool" where
  "slide_render_throws E s =
     (case get_prop s ''text'' of
        None \<Rightarrow> True
      | Some t \<Rightarrow>
          (case or_else t (JStr []) of
             JArr xs \<Rightarrow> ToString_throws E (JArr xs)
           | JObj kvs \<Rightarrow> ToString_throws E (JObj kvs)
           | _ \<Rightarrow> False))"

definition renderSlides_throws :: "env \<Rightarrow> jsval \<Rightarrow> bool" where
  "renderSlides_throws E st =
     (case get_prop st ''slides'' of
        Some (JArr xs) \<Rightarrow> list_ex (slide_render_throws E) xs
      | _ \<Rightarrow> True)"

text \<open>
  \<^verbatim>\<open>init\<close>: \<^verbatim>\<open>load(); renderSlides(); attachEvents(); updateUI();\<close>. An exception
  of \<^verbatim>\<open>renderSlides\<close> is not caught: \<^verbatim>\<open>init\<close> ends there, with the state
  \<^verbatim>\<open>load\<close> left.
\<close>

definition init :: "env \<Rightarrow> jsval world \<Rightarrow> js_error option \<times> jsval world" where
  "init E w =
     (let w1 = load E w
      in if renderSlides_throws E (state w1) then (Some TypeError, w1)
         else (None, updateUI E w1))"

subsection \<open>Import\<close>

text \<open>
  \<^verbatim>\<open>s => ({ id: s.id || genId(), text: s.text || '' })\<close> on one slide, with the
  count of \<^verbatim>\<open>genId\<close> calls threaded through: \<^verbatim>\<open>s.id\<close> throws a TypeError
  (\<open>None\<close>) when \<open>s\<close> is \<^verbatim>\<open>null\<close>.
\<close>

definition normalize_slide :: "env \<Rightarrow> nat \<Rightarrow> jsval \<Rightarrow> (jsval \<times> nat) option" where
  "normalize_slide E n s =
     (case get_prop s ''id'' of
        None \<Rightarrow> None
      | Some i \<Rightarrow>
          (let (idv, n1) = (if truthy i then (i, n) else (JStr (gen E n), Suc n))
           in case get_prop s ''text'' of
                None \<Rightarrow> None
              | Some t \<Rightarrow> Some (JObj [(''id'', idv), (''text'', or_else t (JStr []))], n1)))"

text \<open>
  \<^verbatim>\<open>state.slides.map(...)\<close>: the slides in order; the first exception ends the
  call, the ids generated before it stay consumed.
\<close>

fun map_slides :: "env \<Rightarrow> nat \<Rightarrow> jsval list \<Rightarrow> jsval list option \<times> nat" where
  "map_slides E n [] = (Some [], n)"
| "map_slides E n (s # ss) =
     (case normalize_slide E n s of
        None \<Rightarrow> (None, n)
      | Some (y, n1) \<Rightarrow>
          (case map_slides E n1 ss of
             (None, n2) \<Rightarrow> (None, n2)
           | (Some ys, n2) \<Rightarrow> (Some (y # ys), n2)))"

text \<open>
  The \<^verbatim>\<open>reader.onload\<close> callback of \<^verbatim>\<open>onImportFile\<close>, on the text of the chosen
  file. The result says which exception the \<^verbatim>\<open>catch\<close> block received (it shows
  the alert and logs the error), \<open>None\<close> when there was none. The assignments are in
  the order of the source: \<^verbatim>\<open>state = data\<close> comes before the slides are mapped.
\<close>

definition onImportFile :: "env \<Rightarrow> string \<Rightarrow> jsval world \<Rightarrow> js_error option \<times> jsval world" where
  "onImportFile E text w =
     (case JSON_parse E text of
        None \<Rightarrow> (Some SyntaxError, w)
      | Some data \<Rightarrow>
          (case get_prop data ''slides'' of
             None \<Rightarrow> (Some TypeError, w)
           | Some (JArr xs) \<Rightarrow>
               (let w1 = w\<lparr>state := data\<rparr>
                in case map_slides E (next_id w1) xs of
                     (None, n) \<Rightarrow> (Some TypeError, w1\<lparr>next_id := n\<rparr>)
                   | (Some ys, n) \<Rightarrow>
                       (let w2 = w1\<lparr>state := set_prop data ''slides'' (JArr ys), next_id := n\<rparr>
                        in case clamp_current E (state w2) (length ys) of
                             None \<Rightarrow> (Some TypeError, w2)
                           | Some c \<Rightarrow>
                               (let w3 = w2\<lparr>state := set_prop (state w2) ''current'' (JNum c)\<rparr>
                                in if renderSlides_throws E (state w3) then (Some TypeError, w3)
                                   else (None, updateUI E w3))))
           | Some _ \<Rightarrow> (Some FormatError, w)))"

subsection \<open>Well-typed decks\<close>

record slide =
  slide_id :: string
  slide_text :: string

record deck =
  slides :: "slide list"
  current :: int

definition val_of_slide :: "slide \<Rightarrow> jsval" where
  "val_of_slide s = JObj [(''id'', JStr (slide_id s)), (''text'', JStr (slide_text s))]"

definition val_of_deck :: "deck \<Rightarrow> jsval" where
  "val_of_deck d =
     JObj [(''slides'', JArr (map val_of_slide (slides d))),
           (''current'', JNum (Fin (of_int (current d))))]"

text \<open>\<^verbatim>\<open>save\<close> and \<^verbatim>\<open>updateUI\<close> when the state is a deck.\<close>

definition save_deck :: "env \<Rightarrow> deck world \<Rightarrow> deck world" where
  "save_deck E w =
     w\<lparr>storage := Some (JSON_stringify E (val_of_deck (state w))), writes := Suc (writes w)\<rparr>"

definition updateUI_deck :: "env \<Rightarrow> deck world \<Rightarrow> deck world" where
  "updateUI_deck E w = save_deck E w"

text \<open>
  \<^verbatim>\<open>Array.prototype.splice\<close>: a negative start counts from the end, and the start
  is cut to the length of the array.
\<close>

definition splice_start :: "int \<Rightarrow> nat \<Rightarrow> nat" where
  "splice_start start len =
     (if start < 0 then nat (max (int len + start) 0) else nat (min start (int len)))"

text \<open>\<^verbatim>\<open>xs.splice(start, 0, x)\<close>\<close>

definition splice_insert :: "int \<Rightarrow> 'a \<Rightarrow> 'a list \<Rightarrow> 'a list" where
  "splice_insert start x xs =
     (let k = splice_start start (length xs) in take k xs @ [x] @ drop k xs)"

text \<open>\<^verbatim>\<open>xs.splice(start, 1)\<close>: it removes \<open>min 1 (len - k)\<close> elements.\<close>

definition splice_delete1 :: "int \<Rightarrow> 'a list \<Rightarrow> 'a list" where
  "splice_delete1 start xs =
     (let k = splice_start start (length xs);
          cnt = min 1 (length xs - k)
      in take k xs @ drop (k + cnt) xs)"

text \<open>
  \<^verbatim>\<open>goTo\<close>. When the index, once cut to the range, is the current one the function
  returns after moving the focus: no assignment, no \<^verbatim>\<open>updateUI\<close>.
\<close>

definition goTo :: "env \<Rightarrow> int \<Rightarrow> deck world \<Rightarrow> deck world" where
  "goTo E idx w =
     (let d = state w;
          idx1 = (if idx < 0 then 0 else idx);
          idx2 = (if idx1 > int (length (slides d)) - 1 then int (length (slides d)) - 1 else idx1)
      in if idx2 = current d then w
         else updateUI_deck E (w\<lparr>state := d\<lparr>current := idx2\<rparr>\<rparr>))"

definition addSlide :: "env \<Rightarrow> deck world \<Rightarrow> deck world" where
  "addSlide E w =
     (let (i, w1) = genId E w;
          newSlide = \<lparr>slide_id = i, slide_text = ''Nueva diapositiva''\<rparr>;
          d = state w1;
          d1 = d\<lparr>slides := splice_insert (current d + 1) newSlide (slides d)\<rparr>;
          d2 = d1\<lparr>current := current d1 + 1\<rparr>
      in updateUI_deck E (w1\<lparr>state := d2\<rparr>))"

text \<open>\<^verbatim>\<open>deleteSlide\<close>; \<open>confirmed\<close> is the answer of the \<^verbatim>\<open>confirm\<close> dialog.\<close>

definition deleteSlide :: "env \<Rightarrow> bool \<Rightarrow> deck world \<Rightarrow> deck world" where
  "deleteSlide E confirmed w =
     (let d = state w
      in if length (slides d) = 0 then w
         else if \<not> confirmed then w
         else
           (let d1 = d\<lparr>slides := splice_delete1 (current d) (slides d)\<rparr>;
                d2 = (if current d1 \<ge> int (length (slides d1))
                      then d1\<lparr>current := max 0 (int (length (slides d1)) - 1)\<rparr>
                      else d1)
            in updateUI_deck E (w\<lparr>state := d2\<rparr>)))"

text \<open>
  The \<^verbatim>\<open>input\<close> handler of a slide's text block, for the slide index \<open>idx\<close> it was
  created with and the text of the block:
  \<^verbatim>\<open>state.slides[idx].text = text.innerText; save();\<close>. Out of range
  \<^verbatim>\<open>state.slides[idx]\<close> is \<^verbatim>\<open>undefined\<close> and the assignment throws a TypeError
  before anything is written.
\<close>

definition onTextInput :: "env \<Rightarrow> int \<Rightarrow> string \<Rightarrow> deck world \<Rightarrow> js_error option \<times> deck world" where
  "onTextInput E idx txt w =
     (let d = state w
      in if 0 \<le> idx \<and> idx < int (length (slides d))
         then (None,
               save_deck E
                 (w\<lparr>state := d\<lparr>slides := (slides d)[nat idx := (slides d ! nat idx)\<lparr>slide_text := txt\<rparr>]\<rparr>\<rparr>))
         else (Some TypeError, w))"

subsection \<open>Sequences of addSlide and deleteSlide\<close>

datatype op = AddSlide | DeleteSlide bool

fun step :: "env \<Rightarrow> deck world \<Rightarrow> op \<Rightarrow> deck world" where
  "step E w AddSlide = addSlide E w"
| "step E w (DeleteSlide confirmed) = deleteSlide E confirmed w"

text \<open>The worlds after each call of a sequence, in order.\<close>

fun trace :: "env \<Rightarrow> deck world \<Rightarrow> op list \<Rightarrow> deck world list" where
  "trace E w [] = []"
| "trace E w (x # xs) = step E w x # trace E (step E w x) xs"

text \<open>The invariants of a deck: at least one slide, and the current index in range.\<close>

definition deck_inv :: "deck \<Rightarrow> bool" where
  "deck_inv d = (length (slides d) \<ge> 1 \<and> 0 \<le> current d \<and> current d \<le> int (length (slides d)) - 1)"

text \<open>No call of the sequence is a confirmed \<^verbatim>\<open>deleteSlide\<close> on a deck of one slide.\<close>

fun keeps_a_slide :: "env \<Rightarrow> deck world \<Rightarrow> op list \<Rightarrow> bool" where
  "keeps_a_slide E w [] = True"
| "keeps_a_slide E w (x # xs) =
     (\<not> (x = DeleteSlide True \<and> length (slides (state w)) = 1) \<and> keeps_a_slide E (step E w x) xs)"

subsection \<open>JSON.parse, and JSON.stringify on decks\<close>

text \<open>
  \<^verbatim>\<open>JSON.parse\<close> and \<^verbatim>\<open>JSON.stringify\<close> belong to the runtime, so the functions of
  the program take them from \<open>env\<close>. To state what saving and loading a deck gives,
  this section models them after the language standard: \<open>json_parse\<close> is
  \<^verbatim>\<open>JSON.parse\<close>, and \<open>stringify_deck\<close> is \<^verbatim>\<open>JSON.stringify\<close> on the document of a
  deck. Strings are UTF-8 bytes; a number is read as the real it denotes (not rounded to
  a double), an infinity when a double would overflow; the properties of an object are
  kept in the order of the text (the keys of a deck are no array indices).
\<close>

text \<open>White space between tokens: space, tab, line feed, carriage return.\<close>

definition is_ws :: "char \<Rightarrow> bool" where
  "is_ws c = (c = CHR '' '' \<or> c = CHR 0x09 \<or> c = CHR 0x0A \<or> c = CHR 0x0D)"

definition skip_ws :: "string \<Rightarrow> string" where
  "skip_ws s = dropWhile is_ws s"

text \<open>Decimal and hexadecimal digits.\<close>

definition is_digit :: "char \<Rightarrow> bool" where
  "is_digit c = (48 \<le> (of_char c :: nat) \<and> (of_char c :: nat) \<le> 57)"

definition digit_val :: "char \<Rightarrow> nat" where
  "digit_val c = of_char c - 48"

definition nat_of_digits :: "string \<Rightarrow> nat" where
  "nat_of_digits ds = foldl (\<lambda>a c. 10 * a + digit_val c) 0 ds"

definition hex_val :: "char \<Rightarrow> nat option" where
  "hex_val c =
     (let n = (of_char c :: nat)
      in if 48 \<le> n \<and> n \<le> 57 then Some (n - 48)
         else if 65 \<le> n \<and> n \<le> 70 then Some (n - 55)
         else if 97 \<le> n \<and> n \<le> 102 then Some (n - 87)
         else None)"

definition hex4 :: "char \<Rightarrow> char \<Rightarrow> char \<Rightarrow> char \<Rightarrow> nat option" where
  "hex4 a b c d =
     (case (hex_val a, hex_val b, hex_val c, hex_val d) of
        (Some w, Some x, Some y, Some z) \<Rightarrow> Some (4096 * w + 256 * x + 16 * y + z)
      | _ \<Rightarrow> None)"

text \<open>
  The bytes of a code point. A \<^verbatim>\<open>\u\<close> escape names a UTF-16 code unit: two escapes
  that form a surrogate pair give one code point, any other escape gives its own.
\<close>

definition utf8 :: "nat \<Rightarrow> string" where
  "utf8 cp =
     (if cp < 0x80 then [char_of cp]
      else if cp < 0x800 then [char_of (0xC0 + cp div 64), char_of (0x80 + cp mod 64)]
      else if cp < 0x10000 then
        [char_of (0xE0 + cp div 4096), char_of (0x80 + cp div 64 mod 64), char_of (0x80 + cp mod 64)]
      else
        [char_of (0xF0 + cp div 262144), char_of (0x80 + cp div 4096 mod 64),
         char_of (0x80 + cp div 64 mod 64), char_of (0x80 + cp mod 64)])"

definition low_surrogate :: "string \<Rightarrow> nat option" where
  "low_surrogate s =
     (case s of
        b # u # l1 # l2 # l3 # l4 # r \<Rightarrow>
          (case hex4 l1 l2 l3 l4 of
             None \<Rightarrow> None
           | Some lo \<Rightarrow>
               if b = CHR 0x5C \<and> u = CHR ''u'' \<and> 0xDC00 \<le> lo \<and> lo < 0xE000 then Some lo else None)
      | _ \<Rightarrow> None)"

text \<open>The one-letter escapes of a string.\<close>

definition unescape :: "char \<Rightarrow> char option" where
  "unescape e =
     (if e = CHR 0x22 then Some (CHR 0x22)
      else if e = CHR 0x5C then Some (CHR 0x5C)
      else if e = CHR ''/'' then Some (CHR ''/'')
      else if e = CHR ''b'' then Some (CHR 0x08)
      else if e = CHR ''f'' then Some (CHR 0x0C)
      else if e = CHR ''n'' then Some (CHR 0x0A)
      else if e = CHR ''r'' then Some (CHR 0x0D)
      else if e = CHR ''t'' then Some (CHR 0x09)
      else None)"

text \<open>
  The characters of a string after its opening quote, up to the closing one, and the
  text behind it. A control character must be escaped.
\<close>

fun parse_chars :: "string \<Rightarrow> (string \<times> string) option" where
  "parse_chars [] = None"
| "parse_chars (c # cs) =
     (if c = CHR 0x22 then Some ([], cs)
      else if c = CHR 0x5C then
        (case cs of
           [] \<Rightarrow> None
         | e # r \<Rightarrow>
             if e = CHR ''u'' then
               (case r of
                  h1 # h2 # h3 # h4 # r1 \<Rightarrow>
                    (case hex4 h1 h2 h3 h4 of
                       None \<Rightarrow> None
                     | Some hi \<Rightarrow>
                         if 0xD800 \<le> hi \<and> hi < 0xDC00 then
                           (case low_surrogate r1 of
                              Some lo \<Rightarrow>
                                map_option
                                  (\<lambda>(s, q). (utf8 (0x10000 + 1024 * (hi - 0xD800) + (lo - 0xDC00)) @ s, q))
                                  (parse_chars (drop 6 r1))
                            | None \<Rightarrow> map_option (\<lambda>(s, q). (utf8 hi @ s, q)) (parse_chars r1))
                         else map_option (\<lambda>(s, q). (utf8 hi @ s, q)) (parse_chars r1))
                | _ \<Rightarrow> None)
             else
               (case unescape e of
                  None \<Rightarrow> None
                | Some x \<Rightarrow> map_option (\<lambda>(s, q). (x # s, q)) (parse_chars r)))
      else if (of_char c :: nat) < 0x20 then None
      else map_option (\<lambda>(s, q). (c # s, q)) (parse_chars cs))"

text \<open>
  Numbers: an optional minus, an integer part without a leading zero, an optional
  fraction, an optional exponent. A value that rounds to no finite double (from
  \<open>2 ^ 1024 - 2 ^ 970\<close> on) is an infinity.
\<close>

definition max_finite :: real where
  "max_finite = 2 ^ 1024 - 2 ^ 970"

definition to_jsnum :: "real \<Rightarrow> jsnum" where
  "to_jsnum v = (if max_finite \<le> v then PosInf else if v \<le> - max_finite then NegInf else Fin v)"

definition parse_frac :: "string \<Rightarrow> (string \<times> string) option" where
  "parse_frac s =
     (case s of
        [] \<Rightarrow> Some ([], s)
      | c # r \<Rightarrow>
          if c = CHR ''.'' then
            (if takeWhile is_digit r = [] then None
             else Some (takeWhile is_digit r, dropWhile is_digit r))
          else Some ([], s))"

definition parse_exp :: "string \<Rightarrow> ((bool \<times> nat) \<times> string) option" where
  "parse_exp s =
     (case s of
        [] \<Rightarrow> Some ((False, 0), s)
      | c # r \<Rightarrow>
          if c = CHR ''e'' \<or> c = CHR ''E'' then
            (let (neg, r1) =
                   (case r of
                      [] \<Rightarrow> (False, r)
                    | g # r' \<Rightarrow>
                        if g = CHR ''-'' then (True, r')
                        else if g = CHR ''+'' then (False, r') else (False, r))
             in if takeWhile is_digit r1 = [] then None
                else Some ((neg, nat_of_digits (takeWhile is_digit r1)), dropWhile is_digit r1))
          else Some ((False, 0), s))"

definition parse_number :: "string \<Rightarrow> (jsnum \<times> string) option" where
  "parse_number s =
     (let (neg, s1) =
            (case s of [] \<Rightarrow> (False, s) | c # r \<Rightarrow> if c = CHR ''-'' then (True, r) else (False, s));
          ds = takeWhile is_digit s1
      in if ds = [] \<or> (1 < length ds \<and> hd ds = CHR ''0'') then None
         else
           (case parse_frac (dropWhile is_digit s1) of
              None \<Rightarrow> None
            | Some (fs, r2) \<Rightarrow>
                (case parse_exp r2 of
                   None \<Rightarrow> None
                 | Some ((eneg, ex), r3) \<Rightarrow>
                     (let m = real (nat_of_digits ds) + real (nat_of_digits fs) / 10 ^ length fs;
                          v = (if eneg then m / 10 ^ ex else m * 10 ^ ex)
                      in Some (to_jsnum (if neg then - v else v), r3)))))"

text \<open>The rest of a literal (\<^verbatim>\<open>true\<close>, \<^verbatim>\<open>false\<close>, \<^verbatim>\<open>null\<close>) after its first letter.\<close>

definition strip_prefix :: "string \<Rightarrow> string \<Rightarrow> string option" where
  "strip_prefix p s = (if take (length p) s = p then Some (drop (length p) s) else None)"

text \<open>
  Values, the elements of a non-empty array and the members of a non-empty object.
  The first argument bounds the depth of the calls. A call for a value or a member is
  made after a character was read, and a call for elements is followed by one for a
  value, so twice the length of the text is depth enough. A key that occurs twice keeps
  its first place and its last value.
\<close>

fun parse_value :: "nat \<Rightarrow> string \<Rightarrow> (jsval \<times> string) option"
  and parse_elems :: "nat \<Rightarrow> string \<Rightarrow> (jsval list \<times> string) option"
  and parse_members :: "nat \<Rightarrow> (string \<times> jsval) list \<Rightarrow> string \<Rightarrow> (jsval \<times> string) option"
where
  "parse_value 0 s = None"
| "parse_value (Suc f) s =
     (case skip_ws s of
        [] \<Rightarrow> None
      | c # cs \<Rightarrow>
          if c = CHR ''{'' then
            (case skip_ws cs of
               [] \<Rightarrow> None
             | d # r \<Rightarrow> if d = CHR ''}'' then Some (JObj [], r) else parse_members f [] cs)
          else if c = CHR ''['' then
            (case skip_ws cs of
               [] \<Rightarrow> None
             | d # r \<Rightarrow>
                 if d = CHR '']'' then Some (JArr [], r)
                 else map_option (\<lambda>(xs, q). (JArr xs, q)) (parse_elems f cs))
          else if c = CHR 0x22 then map_option (\<lambda>(x, q). (JStr x, q)) (parse_chars cs)
          else if c = CHR ''t'' then map_option (\<lambda>q. (JBool True, q)) (strip_prefix ''rue'' cs)
          else if c = CHR ''f'' then map_option (\<lambda>q. (JBool False, q)) (strip_prefix ''alse'' cs)
          else if c = CHR ''n'' then map_option (\<lambda>q. (JNull, q)) (strip_prefix ''ull'' cs)
          else map_option (\<lambda>(n, q). (JNum n, q)) (parse_number (c # cs)))"
| "parse_elems 0 s = None"
| "parse_elems (Suc f) s =
     (case parse_value f s of
        None \<Rightarrow> None
      | Some (v, r) \<Rightarrow>
          (case skip_ws r of
             [] \<Rightarrow> None
           | c # q \<Rightarrow>
               if c = CHR '','' then map_option (\<lambda>(vs, q'). (v # vs, q')) (parse_elems f q)
               else if c = CHR '']'' then Some ([v], q)
               else None))"
| "parse_members 0 acc s = None"
| "parse_members (Suc f) acc s =
     (case skip_ws s of
        [] \<Rightarrow> None
      | c # cs \<Rightarrow>
          if c = CHR 0x22 then
            (case parse_chars cs of
               None \<Rightarrow> None
             | Some (k, r) \<Rightarrow>
                 (case skip_ws r of
                    [] \<Rightarrow> None
                  | d # r1 \<Rightarrow>
                      if d = CHR '':'' then
                        (case parse_value f r1 of
                           None \<Rightarrow> None
                         | Some (v, r2) \<Rightarrow>
                             (case skip_ws r2 of
                                [] \<Rightarrow> None
                              | e # r3 \<Rightarrow>
                                  if e = CHR '','' then parse_members f (assign k v acc) r3
                                  else if e = CHR ''}'' then Some (JObj (assign k v acc), r3)
                                  else None))
                      else None))
          else None)"

declare parse_value.simps [simp del] parse_elems.simps [simp del] parse_members.simps [simp del]

text \<open>\<^verbatim>\<open>JSON.parse\<close>: one value, with nothing but white space behind it.\<close>

definition json_parse :: "string \<Rightarrow> jsval option" where
  "json_parse s =
     (case parse_value (2 * length s + 2) s of
        None \<Rightarrow> None
      | Some (v, r) \<Rightarrow> if skip_ws r = [] then Some v else None)"

text \<open>
  \<^verbatim>\<open>JSON.stringify\<close> quotes a string and escapes the quote, the backslash and the
  control characters (the five short escapes, and four lower-case hexadecimal digits for
  the others).
\<close>

definition hex_digit :: "nat \<Rightarrow> char" where
  "hex_digit n = (if n < 10 then char_of (48 + n) else char_of (87 + n))"

definition esc_char :: "char \<Rightarrow> string" where
  "esc_char c =
     (if c = CHR 0x22 then [CHR 0x5C, CHR 0x22]
      else if c = CHR 0x5C then [CHR 0x5C, CHR 0x5C]
      else if c = CHR 0x08 then [CHR 0x5C, CHR ''b'']
      else if c = CHR 0x0C then [CHR 0x5C, CHR ''f'']
      else if c = CHR 0x0A then [CHR 0x5C, CHR ''n'']
      else if c = CHR 0x0D then [CHR 0x5C, CHR ''r'']
      else if c = CHR 0x09 then [CHR 0x5C, CHR ''t'']
      else if (of_char c :: nat) < 0x20 then
        [CHR 0x5C, CHR ''u'', CHR ''0'', CHR ''0'',
         hex_digit ((of_char c :: nat) div 16), hex_digit ((of_char c :: nat) mod 16)]
      else [c])"

text \<open>The characters that \<open>esc_char\<close> gives a short escape.\<close>

definition special :: "char \<Rightarrow> bool" where
  "special c = (c = CHR 0x22 \<or> c = CHR 0x5C \<or> c = CHR 0x08 \<or> c = CHR 0x0C \<or> c = CHR 0x0A
                \<or> c = CHR 0x0D \<or> c = CHR 0x09)"

definition quote :: "string \<Rightarrow> string" where
  "quote s = CHR 0x22 # concat (map esc_char s) @ [CHR 0x22]"

text \<open>An integer in decimal, as \<^verbatim>\<open>JSON.stringify\<close> prints the integers below \<open>10 ^ 21\<close>.\<close>

function digits :: "nat \<Rightarrow> string" where
  "digits n = (if n < 10 then [char_of (48 + n)] else digits (n div 10) @ [char_of (48 + n mod 10)])"
  by pat_completeness auto
termination
  by (relation "measure (\<lambda>n. n)") auto

declare digits.simps [simp del]

definition show_int :: "int \<Rightarrow> string" where
  "show_int i = (if i < 0 then CHR ''-'' # digits (nat (- i)) else digits (nat i))"

text \<open>
  \<^verbatim>\<open>JSON.stringify(state)\<close> when \<^verbatim>\<open>state\<close> is the document of a deck: the
  properties in the order in which the program creates them, no white space.
\<close>

fun commas :: "string list \<Rightarrow> string" where
  "commas [] = []"
| "commas [x] = x"
| "commas (x # y # ys) = x @ CHR '','' # commas (y # ys)"

definition stringify_slide :: "slide \<Rightarrow> string" where
  \<open>stringify_slide s =
     ''{"id":'' @ quote (slide_id s) @ '',"text":'' @ quote (slide_text s) @ ''}''\<close>

definition stringify_deck :: "deck \<Rightarrow> string" where
  \<open>stringify_deck d =
     ''{"slides":['' @ commas (map stringify_slide (slides d)) @ ''],"current":''
     @ show_int (current d) @ ''}''\<close>

subsection \<open>Vocabulary of the statements\<close>

text \<open>
  The clamping the program writes as \<^verbatim>\<open>Math.min(Math.max(lo, x), hi)\<close>, on
  integers.
\<close>

definition clamp :: "int \<Rightarrow> int \<Rightarrow> int \<Rightarrow> int" where
  "clamp x lo hi = min (max lo x) hi"

text \<open>The array under \<^verbatim>\<open>slides\<close>, when \<^verbatim>\<open>Array.isArray(st.slides)\<close> holds.\<close>

definition slides_of :: "jsval \<Rightarrow> jsval list option" where
  "slides_of st = (case get_prop st ''slides'' of Some (JArr xs) \<Rightarrow> Some xs | _ \<Rightarrow> None)"

text \<open>\<^verbatim>\<open>v.k\<close> where it does not throw.\<close>

definition field :: "jsval \<Rightarrow> string \<Rightarrow> jsval" where
  "field v k = (case get_prop v k of None \<Rightarrow> JUndefined | Some u \<Rightarrow> u)"

text \<open>
  The values of \<^verbatim>\<open>current\<close> that the document schema allows, and the ones the
  runtime converts to a number without parsing a string: a missing property, null, a
  boolean, a number (\<^verbatim>\<open>JSON.parse\<close> returns no NaN).
\<close>

fun number_like :: "jsval \<Rightarrow> bool" where
  "number_like JUndefined = True"
| "number_like JNull = True"
| "number_like (JBool b) = True"
| "number_like (JNum n) = (n \<noteq> NaN)"
| "number_like v = False"

text \<open>
  \<^verbatim>\<open>Math.min(Math.max(0, c), n - 1)\<close> on the reals, for a \<open>number_like\<close> value
  \<open>c\<close>: a missing property, null and false count as 0, true as 1.
\<close>

fun clamp_number :: "jsval \<Rightarrow> nat \<Rightarrow> real" where
  "clamp_number (JNum (Fin q)) n = min (max 0 q) (real n - 1)"
| "clamp_number (JNum PosInf) n = real n - 1"
| "clamp_number (JBool True) n = min 1 (real n - 1)"
| "clamp_number c n = min 0 (real n - 1)"

text \<open>The number of slides of a list without a truthy \<^verbatim>\<open>id\<close>.\<close>

definition idless :: "jsval list \<Rightarrow> nat" where
  "idless xs = length (filter (\<lambda>s. \<not> truthy (field s ''id'')) xs)"

text \<open>
  The world in which \<^verbatim>\<open>init()\<close> is called, for a given storage item: the script
  has set \<^verbatim>\<open>state = { slides: [], current: 0 }\<close> and has called \<^verbatim>\<open>genId\<close> once,
  for \<^verbatim>\<open>defaultSlides\<close>.
\<close>

definition boot :: "string option \<Rightarrow> jsval world" where
  "boot item =
     \<lparr>state = JObj [(''slides'', JArr []), (''current'', JNum (Fin 0))],
      storage = item, writes = 0, next_id = 1\<rparr>"

subsection \<open>A runtime and worlds for the examples\<close>

text \<open>
  The examples need a concrete runtime. Its \<^verbatim>\<open>JSON.parse\<close> and
  \<^verbatim>\<open>JSON.stringify\<close> are tables: they agree with the real ones on the texts and
  the value listed, which are all the examples rely on (the parser rejects every other
  text, the printer's answer on another value is not looked at). Its \<^verbatim>\<open>genId\<close>
  returns a different string at each call. The only value an example converts to a
  number is the string \<^verbatim>\<open>"abc"\<close>, which is no numeral: NaN. No example displays an
  array or an object.
\<close>

definition doc_two :: jsval where
  "doc_two =
     JObj [(''slides'', JArr [JObj [(''id'', JStr ''a''), (''text'', JStr ''A'')],
                              JObj [(''id'', JStr ''b''), (''text'', JStr ''B'')]]),
           (''current'', JNum (Fin 7))]"

definition text_two :: string where
  \<open>text_two = ''{"slides":[{"id":"a","text":"A"},{"id":"b","text":"B"}],"current":7}''\<close>

definition example_parse :: "string \<Rightarrow> jsval option" where
  \<open>example_parse s =
     (if s = text_two then Some doc_two
      else if s = ''{"slides":[null]}'' then Some (JObj [(''slides'', JArr [JNull])])
      else if s = ''{"current":0}'' then Some (JObj [(''current'', JNum (Fin 0))])
      else if s = ''{"slides":[],"current":0}''
        then Some (JObj [(''slides'', JArr []), (''current'', JNum (Fin 0))])
      else if s = ''{"slides":[{"text":"A"}],"current":99}''
        then Some (JObj [(''slides'', JArr [JObj [(''text'', JStr ''A'')]]),
                         (''current'', JNum (Fin 99))])
      else if s = ''{"slides":[],"current":"abc"}''
        then Some (JObj [(''slides'', JArr []), (''current'', JStr ''abc'')])
      else if s = ''{"slides":[{"id":"a","text":"A"}],"current":"abc"}''
        then Some (JObj [(''slides'', JArr [JObj [(''id'', JStr ''a''), (''text'', JStr ''A'')]]),
                         (''current'', JStr ''abc'')])
      else None)\<close>

definition example_stringify :: "jsval \<Rightarrow> string" where
  \<open>example_stringify v = (if v = doc_two then text_two else ''null'')\<close>

definition example_env :: env where
  "example_env =
     \<lparr>JSON_parse = example_parse, JSON_stringify = example_stringify,
      gen = (\<lambda>n. ''k'' @ replicate n (CHR ''0'')),
      ToNumber_obj = (\<lambda>v. Some NaN), ToString_throws = (\<lambda>v. False)\<rparr>"

definition one_slide :: "deck world" where
  "one_slide =
     \<lparr>state = \<lparr>slides = [\<lparr>slide_id = ''a'', slide_text = ''A''\<rparr>], current = 0\<rparr>,
      storage = None, writes = 0, next_id = 1\<rparr>"

definition two_slides :: "deck world" where
  "two_slides =
     \<lparr>state = \<lparr>slides = [\<lparr>slide_id = ''a'', slide_text = ''A''\<rparr>,
                         \<lparr>slide_id = ''b'', slide_text = ''B''\<rparr>], current = 0\<rparr>,
      storage = None, writes = 0, next_id = 1\<rparr>"

text \<open>A running world whose state is the deck of \<open>two_slides\<close>.\<close>

definition live_two :: "jsval world" where
  "live_two = \<lparr>state = val_of_deck (state two_slides), storage = None, writes = 0, next_id = 1\<rparr>"

text \<open>The deck whose document is \<open>doc_two\<close> and whose serialization is \<open>text_two\<close>.\<close>

definition deck_seven :: deck where
  "deck_seven = \<lparr>slides = [\<lparr>slide_id = ''a'', slide_text = ''A''\<rparr>, \<lparr>slide_id = ''b'', slide_text = ''B''\<rparr>],
                 current = 7\<rparr>"

section \<open>Properties\<close>

subsection \<open>splice\<close>

lemma splice_start_le: "splice_start s n \<le> n"
  by (auto simp: splice_start_def)

lemma length_splice_insert: "length (splice_insert s x xs) = Suc (length xs)"
  by (simp add: splice_insert_def Let_def splice_start_le)

lemma length_splice_delete1:
  "length (splice_delete1 s xs) =
     (if 0 \<le> s \<and> s \<ge> int (length xs) \<or> xs = [] then length xs else length xs - 1)"
  by (cases xs) (auto simp: splice_delete1_def Let_def splice_start_def min_def max_def)

subsection \<open>addSlide and deleteSlide\<close>

lemma addSlide_inv: "deck_inv (state w) \<Longrightarrow> deck_inv (state (addSlide E w))"
  by (simp add: addSlide_def genId_def Let_def updateUI_deck_def save_deck_def deck_inv_def
      length_splice_insert)

lemma deleteSlide_inv:
  "deck_inv (state w) \<Longrightarrow> \<not> (c \<and> length (slides (state w)) = 1) \<Longrightarrow>
   deck_inv (state (deleteSlide E c w))"
  by (auto simp: deleteSlide_def Let_def updateUI_deck_def save_deck_def deck_inv_def
      length_splice_delete1)

lemma step_inv:
  "deck_inv (state w) \<Longrightarrow> \<not> (x = DeleteSlide True \<and> length (slides (state w)) = 1) \<Longrightarrow>
   deck_inv (state (step E w x))"
  by (cases x) (auto simp: addSlide_inv deleteSlide_inv)

text \<open>
  Whatever the calls, the current index stays between 0 and the number of slides
  (inclusive): the weaker invariant that the program keeps without any condition.
\<close>

lemma step_weak_inv:
  assumes "0 \<le> current (state w)" and "current (state w) \<le> int (length (slides (state w)))"
  shows "0 \<le> current (state (step E w x))
         \<and> current (state (step E w x)) \<le> int (length (slides (state (step E w x))))"
proof (cases x)
  case AddSlide
  with assms show ?thesis
    by (simp add: addSlide_def genId_def Let_def updateUI_deck_def save_deck_def
        length_splice_insert)
next
  case (DeleteSlide c)
  with assms show ?thesis
    by (auto simp: deleteSlide_def Let_def updateUI_deck_def save_deck_def
        length_splice_delete1)
qed

lemma trace_weak_inv:
  assumes "0 \<le> current (state w)" and "current (state w) \<le> int (length (slides (state w)))"
  shows "list_all (\<lambda>w'. 0 \<le> current (state w') \<and> current (state w') \<le> int (length (slides (state w'))))
           (trace E w ops)"
  using assms
proof (induction ops arbitrary: w)
  case Nil
  then show ?case by simp
next
  case (Cons x xs)
  from step_weak_inv [OF Cons.prems, of E x]
  have s: "0 \<le> current (state (step E w x))"
    "current (state (step E w x)) \<le> int (length (slides (state (step E w x))))"
    by simp_all
  from Cons.IH [OF s] s show ?case by simp
qed

text \<open>
  C1. The claim: for every sequence of addSlide and deleteSlide calls starting from a
  deck that satisfies the invariants, after each call the deck has at least one slide and
  its current index is in range. As amended: this holds for every sequence in which no
  confirmed deleteSlide is applied to a deck of exactly one slide (a declined
  confirmation changes nothing).
\<close>

theorem addSlide_deleteSlide_keep_invariants:
  "deck_inv (state w) \<Longrightarrow> keeps_a_slide E w ops \<Longrightarrow>
   \<forall>w' \<in> set (trace E w ops). deck_inv (state w')"
proof (induction ops arbitrary: w)
  case Nil
  then show ?case by simp
next
  case (Cons x xs)
  from Cons.prems have i: "deck_inv (state (step E w x))" by (simp add: step_inv)
  from Cons.prems have k: "keeps_a_slide E (step E w x) xs" by simp
  from Cons.IH [OF i k] i show ?case by simp
qed

theorem addSlide_deleteSlide_keep_invariants_witness:
  "deck_inv (state one_slide)
   \<and> keeps_a_slide example_env one_slide
        [AddSlide, AddSlide, DeleteSlide True, DeleteSlide False, DeleteSlide True]
   \<and> list_all (\<lambda>w'. deck_inv (state w'))
        (trace example_env one_slide
           [AddSlide, AddSlide, DeleteSlide True, DeleteSlide False, DeleteSlide True])"
proof -
  have i: "deck_inv (state one_slide)"
    by (simp add: one_slide_def deck_inv_def)
  have k: "keeps_a_slide example_env one_slide
        [AddSlide, AddSlide, DeleteSlide True, DeleteSlide False, DeleteSlide True]"
    by (simp add: addSlide_def deleteSlide_def genId_def Let_def updateUI_deck_def save_deck_def
        splice_insert_def splice_delete1_def splice_start_def one_slide_def example_env_def)
  from addSlide_deleteSlide_keep_invariants [OF i k] i k show ?thesis
    by (simp only: list_all_iff simp_thms)
qed

text \<open>
  The claim as stated fails: a confirmed deleteSlide on a deck of one slide that
  satisfies the invariants leaves a deck that does not.
\<close>

theorem deleteSlide_last_breaks_invariants:
  "deck_inv (state one_slide)
   \<and> \<not> deck_inv (state (step example_env one_slide (DeleteSlide True)))"
  by (simp add: deleteSlide_def Let_def updateUI_deck_def save_deck_def deck_inv_def
      splice_delete1_def splice_start_def one_slide_def)

text \<open>
  C2. The claim: deleteSlide on a deck of size 1 yields a deck of size 1 whose slide
  is a fresh default slide. As amended: a confirmed deleteSlide on a deck of size 1 that
  satisfies the invariants yields the empty deck with current 0 and persists it; nothing
  is substituted, and a declined confirmation leaves everything as it was.
\<close>

theorem deleteSlide_last_yields_empty:
  "deck_inv (state w) \<Longrightarrow> length (slides (state w)) = 1 \<Longrightarrow>
   state (deleteSlide E True w) = \<lparr>slides = [], current = 0\<rparr>
   \<and> storage (deleteSlide E True w)
       = Some (JSON_stringify E (val_of_deck \<lparr>slides = [], current = 0\<rparr>))
   \<and> deleteSlide E False w = w"
  by (cases "slides (state w)")
     (auto simp: deleteSlide_def Let_def updateUI_deck_def save_deck_def deck_inv_def
        splice_delete1_def splice_start_def val_of_deck_def)

theorem deleteSlide_last_yields_empty_witness:
  "deck_inv (state one_slide) \<and> length (slides (state one_slide)) = 1
   \<and> state (deleteSlide example_env True one_slide) = \<lparr>slides = [], current = 0\<rparr>
   \<and> deleteSlide example_env False one_slide = one_slide"
proof -
  have i: "deck_inv (state one_slide)"
    by (simp add: one_slide_def deck_inv_def)
  have l: "length (slides (state one_slide)) = 1"
    by (simp add: one_slide_def)
  from deleteSlide_last_yields_empty [OF i l, of example_env] i l show ?thesis by simp
qed

theorem deleteSlide_last_no_default_slide:
  "length (slides (state one_slide)) = 1
   \<and> length (slides (state (deleteSlide example_env True one_slide))) \<noteq> 1"
  by (simp add: deleteSlide_def Let_def updateUI_deck_def save_deck_def
      splice_delete1_def splice_start_def one_slide_def)

subsection \<open>The text input handler\<close>

text \<open>
  C5. The claim: for an index out of range, setSlideText is a silent no-op that never
  throws. As amended: for an index out of range the handler changes nothing (no slide,
  not current, no write to the storage) and throws a TypeError; in particular index 5 on
  a deck of two slides throws and changes nothing.
\<close>

theorem onTextInput_out_of_range_throws:
  "\<not> (0 \<le> idx \<and> idx < int (length (slides (state w)))) \<Longrightarrow>
   onTextInput E idx txt w = (Some TypeError, w)"
  by (simp add: onTextInput_def Let_def)

theorem onTextInput_out_of_range_throws_witness:
  "\<not> (0 \<le> (5::int) \<and> 5 < int (length (slides (state two_slides))))
   \<and> onTextInput example_env 5 ''x'' two_slides = (Some TypeError, two_slides)"
proof -
  have h: "\<not> (0 \<le> (5::int) \<and> 5 < int (length (slides (state two_slides))))"
    by (simp add: two_slides_def)
  from onTextInput_out_of_range_throws [OF h, of example_env "''x''"] h show ?thesis by simp
qed

theorem onTextInput_index_5_not_silent:
  "length (slides (state two_slides)) = 2
   \<and> fst (onTextInput example_env 5 ''x'' two_slides) \<noteq> None"
  by (simp add: onTextInput_def Let_def two_slides_def)

subsection \<open>goTo\<close>

text \<open>
  C6. For every integer \<open>i\<close> and every deck, after \<open>goTo i\<close> the current index is
  \<open>i\<close> clamped (the slides are untouched, and the function is total: it raises
  nothing); when the clamped index is the current one the world is unchanged; on a deck
  with a slide the result lies in the range of the slides.
\<close>

theorem goTo_clamps:
  "current (state (goTo E i w)) = clamp i 0 (int (length (slides (state w))) - 1)
   \<and> slides (state (goTo E i w)) = slides (state w)
   \<and> (clamp i 0 (int (length (slides (state w))) - 1) = current (state w) \<longrightarrow> goTo E i w = w)
   \<and> (slides (state w) \<noteq> [] \<longrightarrow>
        0 \<le> current (state (goTo E i w))
        \<and> current (state (goTo E i w)) \<le> int (length (slides (state w))) - 1)"
  by (cases "slides (state w)")
     (auto simp: goTo_def Let_def clamp_def updateUI_deck_def save_deck_def min_def max_def)

theorem goTo_clamps_witness:
  "slides (state two_slides) \<noteq> []
   \<and> clamp 0 0 (int (length (slides (state two_slides))) - 1) = current (state two_slides)
   \<and> goTo example_env 0 two_slides = two_slides
   \<and> current (state (goTo example_env 0 two_slides)) = 0
   \<and> current (state (goTo example_env 99 two_slides)) = 1
   \<and> current (state (goTo example_env (- 5) two_slides)) = 0"
  using goTo_clamps [of example_env 0 two_slides] goTo_clamps [of example_env 99 two_slides]
    goTo_clamps [of example_env "- 5" two_slides]
  by (simp add: two_slides_def clamp_def)

subsection \<open>Objects and clamping\<close>

lemma map_of_assign: "map_of (assign k v kvs) = (map_of kvs)(k \<mapsto> v)"
  by (induction kvs) (auto simp: fun_eq_iff)

lemma get_prop_set_prop:
  "get_prop (set_prop (JObj kvs) k v) k' = Some (if k' = k then v else (case map_of kvs k' of None \<Rightarrow> JUndefined | Some u \<Rightarrow> u))"
  by (simp add: map_of_assign)

lemma slides_of_obj: "slides_of st = Some xs \<Longrightarrow> \<exists>kvs. st = JObj kvs"
  by (cases st) (auto simp: slides_of_def)

lemma get_prop_None: "get_prop s k = None \<longleftrightarrow> s = JUndefined \<or> s = JNull"
  by (cases s) auto

lemma or_else_idem: "or_else (or_else t d) d = or_else t d"
  by (simp add: or_else_def)

lemma Math_clamp_Fin:
  "Math_min (Math_max (Fin 0) (Fin x)) (Fin h) = Fin (min (max 0 x) h)"
  by (simp add: Math_min_def Math_max_def min_def max_def)

lemma Math_clamp_PosInf: "Math_min (Math_max (Fin 0) PosInf) (Fin h) = Fin h"
  by (simp add: Math_min_def Math_max_def)

lemma Math_clamp_NegInf: "Math_min (Math_max (Fin 0) NegInf) (Fin h) = Fin (min 0 h)"
  by (simp add: Math_min_def Math_max_def min_def)

lemma clamp_number_bounds: "0 < n \<Longrightarrow> 0 \<le> clamp_number c n \<and> clamp_number c n \<le> real n - 1"
  by (cases "(c, n)" rule: clamp_number.cases) (auto simp: min_def max_def)

lemma clamp_number_empty: "number_like c \<Longrightarrow> clamp_number c 0 = - 1"
  by (cases "(c, 0::nat)" rule: clamp_number.cases) (auto simp: min_def max_def)

lemma clamp_number_int:
  "clamp_number (JNum (Fin (of_int i))) n = of_int (clamp i 0 (int n - 1))"
  by (simp add: clamp_def min_def max_def)

lemma clamp_current_number:
  assumes "get_prop st ''current'' = Some c" and "number_like c"
  shows "clamp_current E st n = Some (Fin (clamp_number c n))"
proof (cases c)
  case JUndefined
  with assms show ?thesis by (simp add: clamp_current_def or_else_def Math_clamp_Fin)
next
  case JNull
  with assms show ?thesis by (simp add: clamp_current_def or_else_def Math_clamp_Fin)
next
  case (JBool b)
  with assms show ?thesis
    by (cases b) (simp_all add: clamp_current_def or_else_def Math_clamp_Fin)
next
  case (JNum x)
  show ?thesis
  proof (cases x)
    case (Fin r)
    with JNum assms show ?thesis
      by (cases "r = 0") (simp_all add: clamp_current_def or_else_def Math_clamp_Fin)
  next
    case PosInf
    with JNum assms show ?thesis by (simp add: clamp_current_def or_else_def Math_clamp_PosInf)
  next
    case NegInf
    with JNum assms show ?thesis by (simp add: clamp_current_def or_else_def Math_clamp_NegInf)
  next
    case NaN
    with JNum assms show ?thesis by simp
  qed
qed (use assms in auto)

subsection \<open>load\<close>

lemma load_frame: "storage (load E w) = storage w \<and> writes (load E w) = writes w \<and> next_id (load E w) = next_id w"
  by (simp add: load_def split: option.splits jsval.splits)

lemma load_no_item: "storage w = None \<Longrightarrow> state (load E w) = default_state E"
  by (simp add: load_def)

lemma load_empty_item: "storage w = Some [] \<Longrightarrow> state (load E w) = default_state E"
  by (simp add: load_def)

lemma load_syntax_error:
  "storage w = Some raw \<Longrightarrow> JSON_parse E raw = None \<Longrightarrow> state (load E w) = default_state E"
  by (simp add: load_def)

lemma load_no_slides:
  assumes "storage w = Some raw" and "JSON_parse E raw = Some st"
    and "slides_of st = None \<or> slides_of st = Some []"
  shows "state (load E w) = default_state E"
proof (cases "get_prop st ''slides''")
  case None
  with assms(1,2) show ?thesis by (simp add: load_def)
next
  case (Some v)
  with assms(3) have "(\<forall>xs. v \<noteq> JArr xs) \<or> v = JArr []"
    by (cases v) (simp_all add: slides_of_def)
  with Some assms(1,2) show ?thesis
    by (cases v) (auto simp: load_def)
qed

lemma load_default:
  assumes "storage w = None \<or> storage w = Some [] \<or>
      (\<exists>raw. storage w = Some raw \<and>
         (JSON_parse E raw = None \<or>
          (\<exists>st. JSON_parse E raw = Some st \<and> (slides_of st = None \<or> slides_of st = Some []))))"
  shows "state (load E w) = default_state E"
  using assms load_no_item load_empty_item load_syntax_error load_no_slides by blast

lemma default_state_deck:
  "default_state E = val_of_deck \<lparr>slides = [\<lparr>slide_id = gen E 0, slide_text = default_text\<rparr>], current = 0\<rparr>"
  by (simp add: default_state_def defaultSlides_def val_of_deck_def val_of_slide_def)

lemma load_adopt:
  assumes "storage w = Some raw" "raw \<noteq> []" "JSON_parse E raw = Some st" "slides_of st = Some xs" "xs \<noteq> []"
     "get_prop st ''current'' = Some c" "number_like c"
  shows "state (load E w) = set_prop st ''current'' (JNum (Fin (clamp_number c (length xs))))"
    and "slides_of (state (load E w)) = Some xs"
    and "get_prop (state (load E w)) ''current'' = Some (JNum (Fin (clamp_number c (length xs))))"
proof -
  from assms(4) obtain kvs where st: "st = JObj kvs" using slides_of_obj by blast
  note r = clamp_current_number [OF assms(6,7), of E "length xs"]
  from assms(4) have sl: "get_prop st ''slides'' = Some (JArr xs)"
    by (auto simp: slides_of_def split: option.splits jsval.splits)
  have l: "state (load E w) = set_prop st ''current'' (JNum (Fin (clamp_number c (length xs))))"
    using assms(1,2,3,5) sl r by (simp add: load_def)
  have s: "slides_of (set_prop st ''current'' (JNum (Fin (clamp_number c (length xs))))) = Some xs"
    using sl st by (simp add: slides_of_def map_of_assign)
  have c: "get_prop (set_prop st ''current'' (JNum (Fin (clamp_number c (length xs))))) ''current''
           = Some (JNum (Fin (clamp_number c (length xs))))"
    using st by (simp add: map_of_assign)
  from l show "state (load E w) = set_prop st ''current'' (JNum (Fin (clamp_number c (length xs))))" .
  from l s show "slides_of (state (load E w)) = Some xs" by simp
  from l c show "get_prop (state (load E w)) ''current'' = Some (JNum (Fin (clamp_number c (length xs))))"
    by simp
qed

lemma default_renders: "\<not> renderSlides_throws E (default_state E)"
  by (simp add: renderSlides_throws_def default_state_def defaultSlides_def or_else_def)

text \<open>
  C9. The claim: every stored value whose \<^verbatim>\<open>slides\<close> is a non-empty array is adopted
  with \<^verbatim>\<open>current\<close> clamped into the range of the slides. As amended: \<^verbatim>\<open>load\<close> is
  total (it surfaces no error). With no stored item, an empty one, one that does not
  parse, or one that parses to a value whose \<^verbatim>\<open>slides\<close> is not a non-empty array, the
  state is the default one, a single default slide and current 0, and \<^verbatim>\<open>init\<close> as a
  whole ends without an exception. With a stored document whose \<^verbatim>\<open>slides\<close> is a
  non-empty array and whose \<^verbatim>\<open>current\<close> is missing, null, a boolean or a number, the
  state is that document with \<^verbatim>\<open>current\<close> set to \<open>min (max 0 current) (length - 1)\<close>,
  which lies in the range of the slides.
\<close>

theorem load_falls_back_or_adopts:
  "((storage w = None \<or> storage w = Some [] \<or>
      (\<exists>raw. storage w = Some raw \<and>
         (JSON_parse E raw = None \<or>
          (\<exists>st. JSON_parse E raw = Some st \<and> (slides_of st = None \<or> slides_of st = Some [])))))
     \<longrightarrow> state (load E w) = default_state E \<and> init E w = (None, save E (load E w)))
   \<and> default_state E = val_of_deck \<lparr>slides = [\<lparr>slide_id = gen E 0, slide_text = default_text\<rparr>], current = 0\<rparr>
   \<and> (storage w = Some raw \<and> raw \<noteq> [] \<and> JSON_parse E raw = Some st \<and> slides_of st = Some xs \<and> xs \<noteq> []
         \<and> get_prop st ''current'' = Some c \<and> number_like c \<longrightarrow>
        state (load E w) = set_prop st ''current'' (JNum (Fin (clamp_number c (length xs))))
        \<and> slides_of (state (load E w)) = Some xs
        \<and> get_prop (state (load E w)) ''current'' = Some (JNum (Fin (clamp_number c (length xs))))
        \<and> 0 \<le> clamp_number c (length xs) \<and> clamp_number c (length xs) \<le> real (length xs) - 1
        \<and> (\<forall>i. c = JNum (Fin (of_int i))
               \<longrightarrow> clamp_number c (length xs) = of_int (clamp i 0 (int (length xs) - 1))))"
proof -
  have A: "state (load E w) = default_state E \<and> init E w = (None, save E (load E w))"
    if h: "storage w = None \<or> storage w = Some [] \<or>
      (\<exists>raw. storage w = Some raw \<and>
         (JSON_parse E raw = None \<or>
          (\<exists>st. JSON_parse E raw = Some st \<and> (slides_of st = None \<or> slides_of st = Some []))))"
  proof -
    from h have d: "state (load E w) = default_state E" by (rule load_default)
    then have "init E w = (None, save E (load E w))"
      using default_renders [of E] by (simp add: init_def Let_def updateUI_def)
    with d show ?thesis by simp
  qed
  have B: "state (load E w) = set_prop st ''current'' (JNum (Fin (clamp_number c (length xs))))
        \<and> slides_of (state (load E w)) = Some xs
        \<and> get_prop (state (load E w)) ''current'' = Some (JNum (Fin (clamp_number c (length xs))))
        \<and> 0 \<le> clamp_number c (length xs) \<and> clamp_number c (length xs) \<le> real (length xs) - 1
        \<and> (\<forall>i. c = JNum (Fin (of_int i))
               \<longrightarrow> clamp_number c (length xs) = of_int (clamp i 0 (int (length xs) - 1)))"
    if h: "storage w = Some raw \<and> raw \<noteq> [] \<and> JSON_parse E raw = Some st \<and> slides_of st = Some xs \<and> xs \<noteq> []
         \<and> get_prop st ''current'' = Some c \<and> number_like c"
  proof -
    from h have g: "storage w = Some raw" "raw \<noteq> []" "JSON_parse E raw = Some st" "slides_of st = Some xs"
      "xs \<noteq> []" "get_prop st ''current'' = Some c" "number_like c"
      by simp_all
    from g(5) have p: "0 < length xs" by simp
    note L = load_adopt [OF g]
    note Bd = clamp_number_bounds [OF p, of c]
    have I: "\<forall>i. c = JNum (Fin (of_int i))
               \<longrightarrow> clamp_number c (length xs) = of_int (clamp i 0 (int (length xs) - 1))"
      using clamp_number_int by simp
    from Bd have Bd1: "0 \<le> clamp_number c (length xs)"
      and Bd2: "clamp_number c (length xs) \<le> real (length xs) - 1" by simp_all
    from L(1) L(2) L(3) Bd1 Bd2 I show ?thesis by (intro conjI)
  qed
  have A': "(storage w = None \<or> storage w = Some [] \<or>
      (\<exists>raw. storage w = Some raw \<and>
         (JSON_parse E raw = None \<or>
          (\<exists>st. JSON_parse E raw = Some st \<and> (slides_of st = None \<or> slides_of st = Some [])))))
     \<longrightarrow> state (load E w) = default_state E \<and> init E w = (None, save E (load E w))"
    by (rule impI) (rule A)
  have B': "storage w = Some raw \<and> raw \<noteq> [] \<and> JSON_parse E raw = Some st \<and> slides_of st = Some xs \<and> xs \<noteq> []
         \<and> get_prop st ''current'' = Some c \<and> number_like c \<longrightarrow>
        state (load E w) = set_prop st ''current'' (JNum (Fin (clamp_number c (length xs))))
        \<and> slides_of (state (load E w)) = Some xs
        \<and> get_prop (state (load E w)) ''current'' = Some (JNum (Fin (clamp_number c (length xs))))
        \<and> 0 \<le> clamp_number c (length xs) \<and> clamp_number c (length xs) \<le> real (length xs) - 1
        \<and> (\<forall>i. c = JNum (Fin (of_int i))
               \<longrightarrow> clamp_number c (length xs) = of_int (clamp i 0 (int (length xs) - 1)))"
    by (rule impI) (rule B)
  from A' default_state_deck [of E] B' show ?thesis by (intro conjI)
qed

theorem load_falls_back_or_adopts_witness:
  \<open>storage (boot (Some ''not json'')) = Some ''not json''
   \<and> JSON_parse example_env ''not json'' = None
   \<and> state (load example_env (boot (Some ''not json''))) = default_state example_env
   \<and> fst (init example_env (boot (Some ''not json''))) = None
   \<and> storage (boot (Some text_two)) = Some text_two \<and> text_two \<noteq> []
   \<and> JSON_parse example_env text_two = Some doc_two
   \<and> slides_of doc_two = Some [JObj [(''id'', JStr ''a''), (''text'', JStr ''A'')],
                                JObj [(''id'', JStr ''b''), (''text'', JStr ''B'')]]
   \<and> get_prop doc_two ''current'' = Some (JNum (Fin 7)) \<and> number_like (JNum (Fin 7))
   \<and> get_prop (state (load example_env (boot (Some text_two)))) ''current'' = Some (JNum (Fin 1))\<close>
proof -
  let ?xs = "[JObj [(''id'', JStr ''a''), (''text'', JStr ''A'')],
              JObj [(''id'', JStr ''b''), (''text'', JStr ''B'')]]"
  have a1: "storage (boot (Some ''not json'')) = Some ''not json''" by (simp add: boot_def)
  have a2: "JSON_parse example_env ''not json'' = None"
    by (simp add: example_env_def example_parse_def text_two_def)
  have b1: "storage (boot (Some text_two)) = Some text_two" by (simp add: boot_def)
  have b2: "text_two \<noteq> []" by (simp add: text_two_def)
  have b3: "JSON_parse example_env text_two = Some doc_two"
    by (simp add: example_env_def example_parse_def)
  have b4: "slides_of doc_two = Some ?xs" by (simp add: slides_of_def doc_two_def)
  have b5: "get_prop doc_two ''current'' = Some (JNum (Fin 7))" by (simp add: doc_two_def)
  have b6: "number_like (JNum (Fin 7))" by simp
  from load_falls_back_or_adopts [where w = "boot (Some ''not json'')" and E = example_env] a1 a2
  have A: "state (load example_env (boot (Some ''not json''))) = default_state example_env"
    and A': "fst (init example_env (boot (Some ''not json''))) = None"
    by simp_all
  from load_falls_back_or_adopts [where w = "boot (Some text_two)" and E = example_env and raw = text_two
      and st = doc_two and xs = ?xs and c = "JNum (Fin 7)"] b1 b2 b3 b4 b5 b6
  have "get_prop (state (load example_env (boot (Some text_two)))) ''current''
        = Some (JNum (Fin (clamp_number (JNum (Fin 7)) (length ?xs))))"
    by blast
  then have B: "get_prop (state (load example_env (boot (Some text_two)))) ''current'' = Some (JNum (Fin 1))"
    by simp
  from a1 a2 A A' b1 b2 b3 b4 b5 b6 B show ?thesis by (intro conjI)
qed

text \<open>
  The claim as stated fails: a stored document with a slide whose \<^verbatim>\<open>current\<close> is a
  string that is no numeral is adopted with \<^verbatim>\<open>current\<close> NaN.
\<close>

theorem load_keeps_nan_current:
  \<open>JSON_parse example_env ''{"slides":[{"id":"a","text":"A"}],"current":"abc"}''
     = Some (JObj [(''slides'', JArr [JObj [(''id'', JStr ''a''), (''text'', JStr ''A'')]]),
                   (''current'', JStr ''abc'')])
   \<and> slides_of (JObj [(''slides'', JArr [JObj [(''id'', JStr ''a''), (''text'', JStr ''A'')]]),
                      (''current'', JStr ''abc'')])
       = Some [JObj [(''id'', JStr ''a''), (''text'', JStr ''A'')]]
   \<and> get_prop (state (load example_env (boot (Some ''{"slides":[{"id":"a","text":"A"}],"current":"abc"}''))))
        ''current'' = Some (JNum NaN)\<close>
  by (simp add: load_def boot_def example_env_def example_parse_def text_two_def slides_of_def
      clamp_current_def or_else_def Math_max_def Math_min_def)

subsection \<open>The JSON model reads back the serialization of a deck\<close>

lemma of_char_lt_256: "(of_char c :: nat) < 256"
  by (cases c) (simp add: of_char_def horner_sum_eq_sum)

lemma hex_val_hex_digit: "k < 16 \<Longrightarrow> hex_val (hex_digit k) = Some k"
  by (auto simp: hex_val_def hex_digit_def Let_def)

lemma hex4_control:
  assumes "n < 32"
  shows "hex4 (CHR ''0'') (CHR ''0'') (hex_digit (n div 16)) (hex_digit (n mod 16)) = Some n"
proof -
  from assms have a: "n div 16 < 16" by simp
  have b: "n mod 16 < 16" by simp
  have z: "hex_val (CHR ''0'') = Some 0" by (simp add: hex_val_def)
  show ?thesis
    using hex_val_hex_digit [OF a] hex_val_hex_digit [OF b] z by (simp add: hex4_def)
qed

lemma parse_chars_u_control:
  assumes "n < 32"
  shows "parse_chars (CHR 0x5C # CHR ''u'' # CHR ''0'' # CHR ''0'' # hex_digit (n div 16) # hex_digit (n mod 16) # r)
         = map_option (\<lambda>(s, q). (char_of n # s, q)) (parse_chars r)"
proof -
  from assms have u: "utf8 n = [char_of n]" by (simp add: utf8_def)
  from assms have ns: "\<not> (0xD800 \<le> n)" by simp
  show ?thesis
    using hex4_control [OF assms] u ns by simp
qed

lemma parse_chars_esc_special:
  "parse_chars (esc_char (CHR 0x22) @ r) = map_option (\<lambda>(s, q). (CHR 0x22 # s, q)) (parse_chars r)"
  "parse_chars (esc_char (CHR 0x5C) @ r) = map_option (\<lambda>(s, q). (CHR 0x5C # s, q)) (parse_chars r)"
  "parse_chars (esc_char (CHR 0x08) @ r) = map_option (\<lambda>(s, q). (CHR 0x08 # s, q)) (parse_chars r)"
  "parse_chars (esc_char (CHR 0x0C) @ r) = map_option (\<lambda>(s, q). (CHR 0x0C # s, q)) (parse_chars r)"
  "parse_chars (esc_char (CHR 0x0A) @ r) = map_option (\<lambda>(s, q). (CHR 0x0A # s, q)) (parse_chars r)"
  "parse_chars (esc_char (CHR 0x0D) @ r) = map_option (\<lambda>(s, q). (CHR 0x0D # s, q)) (parse_chars r)"
  "parse_chars (esc_char (CHR 0x09) @ r) = map_option (\<lambda>(s, q). (CHR 0x09 # s, q)) (parse_chars r)"
  by (simp_all add: esc_char_def unescape_def)

lemma esc_char_control:
  assumes "\<not> special c" and "(of_char c :: nat) < 32"
  shows "esc_char c = [CHR 0x5C, CHR ''u'', CHR ''0'', CHR ''0'',
         hex_digit ((of_char c :: nat) div 16), hex_digit ((of_char c :: nat) mod 16)]"
  using assms by (simp add: esc_char_def special_def)

lemma esc_char_plain:
  assumes "\<not> special c" and "\<not> (of_char c :: nat) < 32"
  shows "esc_char c = [c]"
  using assms by (simp add: esc_char_def special_def)

lemma parse_chars_plain:
  assumes "\<not> special c" and "\<not> (of_char c :: nat) < 32"
  shows "parse_chars (c # r) = map_option (\<lambda>(s, q). (c # s, q)) (parse_chars r)"
  using assms by (simp add: special_def)

lemma parse_chars_esc:
  "parse_chars (esc_char c @ r) = map_option (\<lambda>(s, q). (c # s, q)) (parse_chars r)"
proof (cases "special c")
  case True
  then consider "c = CHR 0x22" | "c = CHR 0x5C" | "c = CHR 0x08" | "c = CHR 0x0C" | "c = CHR 0x0A"
    | "c = CHR 0x0D" | "c = CHR 0x09"
    unfolding special_def by blast
  then show ?thesis
    by cases (simp_all only: parse_chars_esc_special)
next
  case False
  show ?thesis
  proof (cases "(of_char c :: nat) < 32")
    case True
    from parse_chars_u_control [OF True, of r] esc_char_control [OF False True]
    show ?thesis by simp
  next
    case n: False
    from esc_char_plain [OF False n] parse_chars_plain [OF False n, of r]
    show ?thesis by simp
  qed
qed

lemma parse_chars_quote:
  "parse_chars (concat (map esc_char s) @ CHR 0x22 # r) = Some (s, r)"
proof (induction s)
  case Nil
  then show ?case by simp
next
  case (Cons c s)
  have "parse_chars (concat (map esc_char (c # s)) @ CHR 0x22 # r)
        = parse_chars (esc_char c @ (concat (map esc_char s) @ CHR 0x22 # r))"
    by simp
  also have "\<dots> = map_option (\<lambda>(s, q). (c # s, q)) (parse_chars (concat (map esc_char s) @ CHR 0x22 # r))"
    by (rule parse_chars_esc)
  also have "\<dots> = Some (c # s, r)" using Cons.IH by simp
  finally show ?case .
qed

lemma is_digit_char_of: "(k::nat) < 10 \<Longrightarrow> is_digit (char_of (48 + k))"
  by (simp add: is_digit_def)

lemma digit_val_char_of: "(k::nat) < 10 \<Longrightarrow> digit_val (char_of (48 + k)) = k"
  by (simp add: digit_val_def)

lemma digits_all_digit: "\<forall>c \<in> set (digits n). is_digit c"
proof (induction n rule: digits.induct)
  case (1 n)
  show ?case
  proof (cases "n < 10")
    case True
    then show ?thesis by (subst digits.simps) (simp add: is_digit_char_of)
  next
    case False
    have "n mod 10 < 10" by simp
    with False "1.IH" show ?thesis
      by (subst digits.simps) (simp add: is_digit_char_of)
  qed
qed

lemma digits_nonempty: "digits n \<noteq> []"
  by (subst digits.simps) simp

lemma nat_of_digits_Nil: "nat_of_digits [] = 0"
  by (simp add: nat_of_digits_def)

lemma nat_of_digits_snoc: "nat_of_digits (ds @ [c]) = 10 * nat_of_digits ds + digit_val c"
  by (simp add: nat_of_digits_def)

lemma nat_of_digits_digits: "nat_of_digits (digits n) = n"
proof (induction n rule: digits.induct)
  case (1 n)
  show ?case
  proof (cases "n < 10")
    case True
    then show ?thesis by (subst digits.simps) (simp add: nat_of_digits_def digit_val_char_of)
  next
    case False
    have m: "n mod 10 < 10" by simp
    from False "1.IH" have "nat_of_digits (digits (n div 10)) = n div 10" by simp
    with False m show ?thesis
      by (subst digits.simps) (simp add: nat_of_digits_snoc digit_val_char_of)
  qed
qed

lemma hd_digits: "0 < n \<Longrightarrow> hd (digits n) \<noteq> CHR ''0''"
proof (induction n rule: digits.induct)
  case (1 n)
  show ?case
  proof (cases "n < 10")
    case True
    then have "(of_char (char_of (48 + n)) :: nat) = 48 + n" by simp
    moreover have "(of_char (CHR ''0'') :: nat) = 48" by simp
    ultimately have "char_of (48 + n) \<noteq> CHR ''0''"
      using "1.prems" by (metis add_cancel_right_right less_numeral_extra(3))
    with True show ?thesis by (subst digits.simps) simp
  next
    case False
    then have "0 < n div 10" by simp
    with False "1.IH" have "hd (digits (n div 10)) \<noteq> CHR ''0''" by simp
    with False show ?thesis
      by (subst digits.simps) (simp add: digits_nonempty)
  qed
qed

lemma length_digits_small: "1 < length (digits n) \<Longrightarrow> 0 < n"
  by (cases "n = 0") (simp_all add: digits.simps [of 0])

lemma takeWhile_digits:
  assumes "r = [] \<or> \<not> is_digit (hd r)"
  shows "takeWhile is_digit (digits n @ r) = digits n" and "dropWhile is_digit (digits n @ r) = r"
proof -
  from assms have t: "takeWhile is_digit r = []" and d: "dropWhile is_digit r = r"
    by (cases r; simp)+
  show "takeWhile is_digit (digits n @ r) = digits n"
    using digits_all_digit [of n] t by simp
  show "dropWhile is_digit (digits n @ r) = r"
    using digits_all_digit [of n] d by simp
qed

lemma parse_number_digits:
  assumes "r = [] \<or> (\<not> is_digit (hd r) \<and> hd r \<noteq> CHR ''.'' \<and> hd r \<noteq> CHR ''e'' \<and> hd r \<noteq> CHR ''E'')"
  shows "parse_number (digits n @ r) = Some (to_jsnum (real n), r)"
proof -
  from assms have a: "r = [] \<or> \<not> is_digit (hd r)" by blast
  have "\<not> is_digit (CHR ''-'')" by (simp add: is_digit_def)
  then have nm: "hd (digits n @ r) \<noteq> CHR ''-''"
    using digits_all_digit [of n] digits_nonempty [of n]
    by (cases "digits n") auto
  then have s1: "(case digits n @ r of [] \<Rightarrow> (False, digits n @ r)
                  | c # q \<Rightarrow> if c = CHR ''-'' then (True, q) else (False, digits n @ r))
                 = (False, digits n @ r)"
    by (cases "digits n @ r") auto
  have lz: "\<not> (1 < length (digits n) \<and> hd (digits n) = CHR ''0'')"
    using hd_digits length_digits_small by blast
  from assms have f: "parse_frac r = Some ([], r)"
    by (cases r) (auto simp: parse_frac_def)
  from assms have e: "parse_exp r = Some ((False, 0), r)"
    by (cases r) (auto simp: parse_exp_def)
  show ?thesis
    unfolding parse_number_def s1
    using takeWhile_digits [OF a, of n] digits_nonempty [of n] lz f e
    by (simp add: Let_def nat_of_digits_digits nat_of_digits_Nil)
qed

lemma parse_number_neg_digits:
  assumes "r = [] \<or> (\<not> is_digit (hd r) \<and> hd r \<noteq> CHR ''.'' \<and> hd r \<noteq> CHR ''e'' \<and> hd r \<noteq> CHR ''E'')"
  shows "parse_number (CHR ''-'' # digits n @ r) = Some (to_jsnum (- real n), r)"
proof -
  from assms have a: "r = [] \<or> \<not> is_digit (hd r)" by blast
  have lz: "\<not> (1 < length (digits n) \<and> hd (digits n) = CHR ''0'')"
    using hd_digits length_digits_small by blast
  from assms have f: "parse_frac r = Some ([], r)"
    by (cases r) (auto simp: parse_frac_def)
  from assms have e: "parse_exp r = Some ((False, 0), r)"
    by (cases r) (auto simp: parse_exp_def)
  show ?thesis
    unfolding parse_number_def
    using takeWhile_digits [OF a, of n] digits_nonempty [of n] lz f e
    by (simp add: Let_def nat_of_digits_digits nat_of_digits_Nil)
qed

lemma to_jsnum_safe: "\<bar>i\<bar> \<le> 2 ^ 53 \<Longrightarrow> to_jsnum (real_of_int i) = Fin (real_of_int i)"
proof -
  assume a: "\<bar>i\<bar> \<le> 2 ^ 53"
  have b: "(2::real) ^ 53 < max_finite"
    by (simp add: max_finite_def)
  from a have "\<bar>real_of_int i\<bar> \<le> 2 ^ 53"
    by (metis of_int_abs of_int_le_iff of_int_numeral of_int_power)
  with b have "real_of_int i < max_finite" "- max_finite < real_of_int i" by linarith+
  then show ?thesis by (simp add: to_jsnum_def)
qed

lemma parse_number_show_int:
  assumes "\<bar>i\<bar> \<le> 2 ^ 53"
    and "r = [] \<or> (\<not> is_digit (hd r) \<and> hd r \<noteq> CHR ''.'' \<and> hd r \<noteq> CHR ''e'' \<and> hd r \<noteq> CHR ''E'')"
  shows "parse_number (show_int i @ r) = Some (Fin (real_of_int i), r)"
proof (cases "i < 0")
  case True
  then have "real (nat (- i)) = - real_of_int i" by simp
  with True parse_number_neg_digits [OF assms(2), of "nat (- i)"] to_jsnum_safe [OF assms(1)]
  show ?thesis by (simp add: show_int_def)
next
  case False
  then have "real (nat i) = real_of_int i" by simp
  with False parse_number_digits [OF assms(2), of "nat i"] to_jsnum_safe [OF assms(1)]
  show ?thesis by (simp add: show_int_def)
qed

lemma skip_ws_nonws: "\<not> is_ws c \<Longrightarrow> skip_ws (c # cs) = c # cs"
  by (simp add: skip_ws_def)

lemma parse_value_quote: "parse_value (Suc f) (quote s @ r) = Some (JStr s, r)"
  by (subst parse_value.simps) (simp add: quote_def skip_ws_def is_ws_def parse_chars_quote)

lemma parse_value_object:
  "parse_value (Suc f) (CHR ''{'' # CHR 0x22 # cs) = parse_members f [] (CHR 0x22 # cs)"
  by (subst parse_value.simps) (simp add: skip_ws_def is_ws_def)

lemma parse_members_last:
  assumes "parse_chars ks = Some (k, CHR '':'' # rest)"
    and "parse_value f rest = Some (v, CHR ''}'' # r)"
  shows "parse_members (Suc f) acc (CHR 0x22 # ks) = Some (JObj (assign k v acc), r)"
  by (subst parse_members.simps) (simp add: skip_ws_def is_ws_def assms)

lemma parse_members_more:
  assumes "parse_chars ks = Some (k, CHR '':'' # rest)"
    and "parse_value f rest = Some (v, CHR '','' # r)"
  shows "parse_members (Suc f) acc (CHR 0x22 # ks) = parse_members f (assign k v acc) r"
  by (subst parse_members.simps) (simp add: skip_ws_def is_ws_def assms)

lemma parse_chars_key_id: "parse_chars (''id'' @ CHR 0x22 # q) = Some (''id'', q)"
  using parse_chars_quote [of "''id''" q] by (simp add: esc_char_def)

lemma parse_chars_key_text: "parse_chars (''text'' @ CHR 0x22 # q) = Some (''text'', q)"
  using parse_chars_quote [of "''text''" q] by (simp add: esc_char_def)

lemma parse_value_slide:
  assumes "4 \<le> f"
  shows "parse_value f (stringify_slide s @ r) = Some (val_of_slide s, r)"
proof -
  define g where "g = f - 4"
  with assms have f: "f = Suc (Suc (Suc (Suc g)))" by simp
  let ?t = "quote (slide_text s) @ CHR ''}'' # r"
  let ?m2 = "''text'' @ CHR 0x22 # CHR '':'' # ?t"
  let ?i = "quote (slide_id s) @ CHR '','' # CHR 0x22 # ?m2"
  let ?m1 = "''id'' @ CHR 0x22 # CHR '':'' # ?i"
  have e: "stringify_slide s @ r = CHR ''{'' # CHR 0x22 # ?m1"
    by (simp add: stringify_slide_def)
  have k2: "parse_chars ?m2 = Some (''text'', CHR '':'' # ?t)" by (rule parse_chars_key_text)
  have v2: "parse_value (Suc g) ?t = Some (JStr (slide_text s), CHR ''}'' # r)"
    by (rule parse_value_quote)
  have m2: "parse_members (Suc (Suc g)) [(''id'', JStr (slide_id s))] (CHR 0x22 # ?m2)
            = Some (JObj (assign ''text'' (JStr (slide_text s)) [(''id'', JStr (slide_id s))]), r)"
    by (rule parse_members_last [OF k2 v2])
  have k1: "parse_chars ?m1 = Some (''id'', CHR '':'' # ?i)" by (rule parse_chars_key_id)
  have v1: "parse_value (Suc (Suc g)) ?i = Some (JStr (slide_id s), CHR '','' # CHR 0x22 # ?m2)"
    by (rule parse_value_quote)
  have m1: "parse_members (Suc (Suc (Suc g))) [] (CHR 0x22 # ?m1)
            = parse_members (Suc (Suc g)) (assign ''id'' (JStr (slide_id s)) []) (CHR 0x22 # ?m2)"
    by (rule parse_members_more [OF k1 v1])
  have "parse_value f (stringify_slide s @ r) = parse_members (Suc (Suc (Suc g))) [] (CHR 0x22 # ?m1)"
    unfolding f e by (rule parse_value_object)
  also have "\<dots> = Some (JObj (assign ''text'' (JStr (slide_text s)) [(''id'', JStr (slide_id s))]), r)"
    using m1 m2 by simp
  also have "\<dots> = Some (val_of_slide s, r)"
    by (simp add: val_of_slide_def)
  finally show ?thesis .
qed

lemma parse_elems_slides:
  assumes "xs \<noteq> []" and "length xs + 4 \<le> f"
  shows "parse_elems f (commas (map stringify_slide xs) @ CHR '']'' # r) = Some (map val_of_slide xs, r)"
  using assms
proof (induction xs arbitrary: f rule: list_nonempty_induct)
  case (single x)
  then obtain g where f: "f = Suc g" and g: "4 \<le> g" by (cases f) auto
  from parse_value_slide [OF g, of x "CHR '']'' # r"] show ?case
    unfolding f by (subst parse_elems.simps) (simp add: skip_ws_def is_ws_def)
next
  case (cons x xs)
  then obtain g where f: "f = Suc g" and g: "4 \<le> g" and l: "length xs + 4 \<le> g"
    by (cases f) auto
  from cons.hyps obtain y ys where xs: "xs = y # ys" by (cases xs) auto
  have e: "commas (map stringify_slide (x # xs)) @ CHR '']'' # r
           = stringify_slide x @ CHR '','' # (commas (map stringify_slide xs) @ CHR '']'' # r)"
    by (simp add: xs)
  from parse_value_slide [OF g, of x "CHR '','' # (commas (map stringify_slide xs) @ CHR '']'' # r)"]
    cons.IH [OF l]
  show ?case
    unfolding f e by (subst parse_elems.simps) (simp add: skip_ws_def is_ws_def)
qed

lemma stringify_slide_hd: "\<exists>t. stringify_slide s = CHR ''{'' # t"
  by (simp add: stringify_slide_def)

lemma commas_slides_hd:
  assumes "xs \<noteq> []"
  shows "\<exists>t. commas (map stringify_slide xs) = CHR ''{'' # t"
proof -
  from assms obtain y ys where xs: "xs = y # ys" by (cases xs) auto
  from stringify_slide_hd [of y] obtain t where t: "stringify_slide y = CHR ''{'' # t" by blast
  show ?thesis by (cases ys) (simp_all add: xs t)
qed

lemma parse_value_slides:
  assumes "length xs + 5 \<le> f"
  shows "parse_value f (CHR ''['' # commas (map stringify_slide xs) @ CHR '']'' # r)
         = Some (JArr (map val_of_slide xs), r)"
proof -
  from assms obtain g where f: "f = Suc g" and g: "length xs + 4 \<le> g" by (cases f) auto
  show ?thesis
  proof (cases "xs = []")
    case True
    then show ?thesis
      unfolding f by (subst parse_value.simps) (simp add: skip_ws_def is_ws_def)
  next
    case False
    from commas_slides_hd [OF False] obtain t where t: "commas (map stringify_slide xs) = CHR ''{'' # t"
      by blast
    have "parse_value (Suc g) (CHR ''['' # commas (map stringify_slide xs) @ CHR '']'' # r)
          = map_option (\<lambda>(xs, q). (JArr xs, q))
              (parse_elems g (commas (map stringify_slide xs) @ CHR '']'' # r))"
      by (subst parse_value.simps) (simp add: t skip_ws_def is_ws_def)
    with parse_elems_slides [OF False g, of r] show ?thesis
      unfolding f by simp
  qed
qed

lemma show_int_hd: "\<exists>c cs. show_int i = c # cs \<and> (c = CHR ''-'' \<or> is_digit c)"
proof (cases "i < 0")
  case True
  then show ?thesis by (simp add: show_int_def)
next
  case False
  from digits_nonempty [of "nat i"] obtain c cs where d: "digits (nat i) = c # cs"
    by (cases "digits (nat i)") auto
  with digits_all_digit [of "nat i"] have "is_digit c" by simp
  with d False show ?thesis by (simp add: show_int_def)
qed

lemma parse_value_number_start:
  assumes "c = CHR ''-'' \<or> is_digit c"
  shows "parse_value (Suc f) (c # cs) = map_option (\<lambda>(n, q). (JNum n, q)) (parse_number (c # cs))"
proof -
  from assms have n: "\<not> is_ws c" "c \<noteq> CHR ''{''" "c \<noteq> CHR ''[''" "c \<noteq> CHR 0x22"
    "c \<noteq> CHR ''t''" "c \<noteq> CHR ''f''" "c \<noteq> CHR ''n''"
    by (auto simp: is_ws_def is_digit_def)
  show ?thesis
    by (subst parse_value.simps) (simp add: skip_ws_nonws n)
qed

lemma parse_value_show_int:
  assumes "\<bar>i\<bar> \<le> 2 ^ 53"
  shows "parse_value (Suc f) (show_int i @ CHR ''}'' # r) = Some (JNum (Fin (real_of_int i)), CHR ''}'' # r)"
proof -
  from show_int_hd [of i] obtain c cs where s: "show_int i = c # cs" and c: "c = CHR ''-'' \<or> is_digit c"
    by blast
  have t: "CHR ''}'' # r = [] \<or> (\<not> is_digit (hd (CHR ''}'' # r)) \<and> hd (CHR ''}'' # r) \<noteq> CHR ''.''
             \<and> hd (CHR ''}'' # r) \<noteq> CHR ''e'' \<and> hd (CHR ''}'' # r) \<noteq> CHR ''E'')"
    by (simp add: is_digit_def)
  from parse_number_show_int [OF assms t] have p: "parse_number (c # cs @ CHR ''}'' # r) = Some (Fin (real_of_int i), CHR ''}'' # r)"
    by (simp add: s)
  from parse_value_number_start [OF c, of f "cs @ CHR ''}'' # r"] p show ?thesis
    by (simp add: s)
qed

lemma parse_chars_key_slides: "parse_chars (''slides'' @ CHR 0x22 # q) = Some (''slides'', q)"
  using parse_chars_quote [of "''slides''" q] by (simp add: esc_char_def)

lemma parse_chars_key_current: "parse_chars (''current'' @ CHR 0x22 # q) = Some (''current'', q)"
  using parse_chars_quote [of "''current''" q] by (simp add: esc_char_def)

lemma parse_value_deck:
  assumes "\<bar>current d\<bar> \<le> 2 ^ 53" and "length (slides d) + 8 \<le> f"
  shows "parse_value f (stringify_deck d @ r) = Some (val_of_deck d, r)"
proof -
  define g where "g = f - 4"
  with assms(2) have f: "f = Suc (Suc (Suc (Suc g)))" and g': "length (slides d) + 5 \<le> Suc (Suc g)"
    by simp_all
  let ?c = "show_int (current d) @ CHR ''}'' # r"
  let ?m2 = "''current'' @ CHR 0x22 # CHR '':'' # ?c"
  let ?s = "CHR ''['' # commas (map stringify_slide (slides d)) @ CHR '']'' # CHR '','' # CHR 0x22 # ?m2"
  let ?m1 = "''slides'' @ CHR 0x22 # CHR '':'' # ?s"
  let ?sv = "JArr (map val_of_slide (slides d))"
  let ?cv = "JNum (Fin (real_of_int (current d)))"
  have e: "stringify_deck d @ r = CHR ''{'' # CHR 0x22 # ?m1"
    by (simp add: stringify_deck_def)
  have k2: "parse_chars ?m2 = Some (''current'', CHR '':'' # ?c)" by (rule parse_chars_key_current)
  have v2: "parse_value (Suc g) ?c = Some (?cv, CHR ''}'' # r)"
    by (rule parse_value_show_int [OF assms(1)])
  have m2: "parse_members (Suc (Suc g)) [(''slides'', ?sv)] (CHR 0x22 # ?m2)
            = Some (JObj (assign ''current'' ?cv [(''slides'', ?sv)]), r)"
    by (rule parse_members_last [OF k2 v2])
  have k1: "parse_chars ?m1 = Some (''slides'', CHR '':'' # ?s)" by (rule parse_chars_key_slides)
  have v1: "parse_value (Suc (Suc g)) ?s = Some (?sv, CHR '','' # CHR 0x22 # ?m2)"
    by (rule parse_value_slides [OF g'])
  have m1: "parse_members (Suc (Suc (Suc g))) [] (CHR 0x22 # ?m1)
            = parse_members (Suc (Suc g)) (assign ''slides'' ?sv []) (CHR 0x22 # ?m2)"
    by (rule parse_members_more [OF k1 v1])
  have "parse_value f (stringify_deck d @ r) = parse_members (Suc (Suc (Suc g))) [] (CHR 0x22 # ?m1)"
    unfolding f e by (rule parse_value_object)
  also have "\<dots> = Some (JObj (assign ''current'' ?cv [(''slides'', ?sv)]), r)"
    using m1 m2 by simp
  also have "\<dots> = Some (val_of_deck d, r)"
    by (simp add: val_of_deck_def)
  finally show ?thesis .
qed

lemma length_commas_slides: "length xs \<le> length (commas (map stringify_slide xs))"
proof (induction xs rule: induct_list012)
  case 1
  then show ?case by simp
next
  case (2 x)
  then show ?case by (simp add: stringify_slide_def)
next
  case (3 x y zs)
  then show ?case by (simp add: stringify_slide_def)
qed

lemma deck_fuel: "length (slides d) + 8 \<le> 2 * length (stringify_deck d) + 2"
  using length_commas_slides [of "slides d"] by (simp add: stringify_deck_def)

lemma json_parse_stringify_deck:
  assumes "\<bar>current d\<bar> \<le> 2 ^ 53"
  shows "json_parse (stringify_deck d) = Some (val_of_deck d)"
proof -
  from parse_value_deck [OF assms deck_fuel, of "[]"]
  show ?thesis by (simp add: json_parse_def skip_ws_def)
qed

lemma stringify_deck_nonempty: "stringify_deck d \<noteq> []"
  by (simp add: stringify_deck_def)

subsection \<open>save then load\<close>

lemma val_of_deck_current:
  "set_prop (val_of_deck d) ''current'' (JNum (Fin (of_int i))) = val_of_deck (d\<lparr>current := i\<rparr>)"
  by (simp add: val_of_deck_def)

lemma clamp_in_range: "deck_inv d \<Longrightarrow> clamp (current d) 0 (int (length (slides d)) - 1) = current d"
  by (simp add: deck_inv_def clamp_def)

text \<open>
  C10. For every deck whose current index is an integer that a JavaScript number holds
  exactly, in a runtime that prints the deck and reads the text back as the JSON model
  does: the serialization parses to the document of the same deck (same slides in the
  same order, same ids, same texts, same current); the clamping of \<^verbatim>\<open>load\<close> then sets
  the clamped current index; and for a deck with a slide that is the state \<^verbatim>\<open>load\<close>
  reaches after \<^verbatim>\<open>save\<close>.
\<close>

theorem save_load_roundtrip:
  assumes h1: "JSON_stringify E (val_of_deck d) = stringify_deck d"
    and h2: "JSON_parse E (stringify_deck d) = json_parse (stringify_deck d)"
    and h3: "\<bar>current d\<bar> \<le> 2 ^ 53"
  shows "json_parse (stringify_deck d) = Some (val_of_deck d)
         \<and> JSON_parse E (JSON_stringify E (val_of_deck d)) = Some (val_of_deck d)
         \<and> clamp_current E (val_of_deck d) (length (slides d))
             = Some (Fin (of_int (clamp (current d) 0 (int (length (slides d)) - 1))))
         \<and> set_prop (val_of_deck d) ''current''
               (JNum (Fin (of_int (clamp (current d) 0 (int (length (slides d)) - 1)))))
             = val_of_deck (d\<lparr>current := clamp (current d) 0 (int (length (slides d)) - 1)\<rparr>)
         \<and> (slides d \<noteq> [] \<longrightarrow>
              state (load E (save E (w\<lparr>state := val_of_deck d\<rparr>)))
              = val_of_deck (d\<lparr>current := clamp (current d) 0 (int (length (slides d)) - 1)\<rparr>))"
proof -
  let ?w = "save E (w\<lparr>state := val_of_deck d\<rparr>)"
  let ?xs = "map val_of_slide (slides d)"
  let ?k = "clamp (current d) 0 (int (length (slides d)) - 1)"
  have m: "json_parse (stringify_deck d) = Some (val_of_deck d)"
    by (rule json_parse_stringify_deck [OF h3])
  with h1 h2 have rt: "JSON_parse E (JSON_stringify E (val_of_deck d)) = Some (val_of_deck d)"
    by simp
  have s: "slides_of (val_of_deck d) = Some ?xs"
    by (simp add: slides_of_def val_of_deck_def)
  have c: "get_prop (val_of_deck d) ''current'' = Some (JNum (Fin (of_int (current d))))"
    by (simp add: val_of_deck_def)
  have n: "number_like (JNum (Fin (of_int (current d))))" by simp
  have q: "clamp_current E (val_of_deck d) (length (slides d)) = Some (Fin (of_int ?k))"
    using clamp_current_number [OF c n, of E "length (slides d)"] by (simp only: clamp_number_int)
  have u: "set_prop (val_of_deck d) ''current'' (JNum (Fin (of_int ?k))) = val_of_deck (d\<lparr>current := ?k\<rparr>)"
    by (rule val_of_deck_current)
  have B: "state (load E ?w) = val_of_deck (d\<lparr>current := ?k\<rparr>)" if h: "slides d \<noteq> []"
  proof -
    have a: "storage ?w = Some (JSON_stringify E (val_of_deck d))"
      by (simp add: save_def)
    have ne: "JSON_stringify E (val_of_deck d) \<noteq> []"
      using h1 by (simp add: stringify_deck_nonempty)
    have x: "?xs \<noteq> []" using h by simp
    from load_adopt(1) [OF a ne rt s x c n]
    have "state (load E ?w) = set_prop (val_of_deck d) ''current'' (JNum (Fin (of_int ?k)))"
      by (simp only: clamp_number_int length_map)
    with u show ?thesis by simp
  qed
  have B': "slides d \<noteq> [] \<longrightarrow> state (load E ?w) = val_of_deck (d\<lparr>current := ?k\<rparr>)"
    by (rule impI) (rule B)
  from m rt q u B' show ?thesis by (intro conjI)
qed

lemma stringify_deck_seven: "stringify_deck deck_seven = text_two"
  by (simp add: deck_seven_def stringify_deck_def stringify_slide_def quote_def esc_char_def
      show_int_def digits.simps text_two_def char_of_eq_iff)

lemma val_of_deck_seven: "val_of_deck deck_seven = doc_two"
  by (simp add: deck_seven_def val_of_deck_def val_of_slide_def doc_two_def)

theorem save_load_roundtrip_witness:
  "JSON_stringify example_env (val_of_deck deck_seven) = stringify_deck deck_seven
   \<and> JSON_parse example_env (stringify_deck deck_seven) = json_parse (stringify_deck deck_seven)
   \<and> \<bar>current deck_seven\<bar> \<le> 2 ^ 53
   \<and> slides deck_seven \<noteq> []
   \<and> json_parse (stringify_deck deck_seven) = Some (val_of_deck deck_seven)
   \<and> state (load example_env (save example_env ((boot None)\<lparr>state := val_of_deck deck_seven\<rparr>)))
       = val_of_deck (deck_seven\<lparr>current := 1\<rparr>)"
proof -
  have h3: "\<bar>current deck_seven\<bar> \<le> 2 ^ 53" by (simp add: deck_seven_def)
  have h1: "JSON_stringify example_env (val_of_deck deck_seven) = stringify_deck deck_seven"
    by (simp add: val_of_deck_seven stringify_deck_seven example_env_def example_stringify_def)
  have p: "JSON_parse example_env text_two = Some doc_two"
    by (simp add: example_env_def example_parse_def)
  have h2: "JSON_parse example_env (stringify_deck deck_seven) = json_parse (stringify_deck deck_seven)"
    using p json_parse_stringify_deck [OF h3] by (simp add: stringify_deck_seven val_of_deck_seven)
  have ne: "slides deck_seven \<noteq> []" by (simp add: deck_seven_def)
  have k: "clamp (current deck_seven) 0 (int (length (slides deck_seven)) - 1) = 1"
    by (simp add: deck_seven_def clamp_def)
  note T = save_load_roundtrip [OF h1 h2 h3, of "boot None"]
  from T have a: "json_parse (stringify_deck deck_seven) = Some (val_of_deck deck_seven)" by (rule conjunct1)
  from T ne have b: "state (load example_env (save example_env ((boot None)\<lparr>state := val_of_deck deck_seven\<rparr>)))
       = val_of_deck (deck_seven\<lparr>current := clamp (current deck_seven) 0 (int (length (slides deck_seven)) - 1)\<rparr>)"
    by blast
  from b have b': "state (load example_env (save example_env ((boot None)\<lparr>state := val_of_deck deck_seven\<rparr>)))
       = val_of_deck (deck_seven\<lparr>current := 1\<rparr>)"
    by (simp only: k)
  from h1 h2 h3 ne a b' show ?thesis by (intro conjI)
qed

subsection \<open>init\<close>

text \<open>
  C8. The claim: startup initialization writes nothing to the storage. As amended:
  \<^verbatim>\<open>load\<close> writes nothing; \<^verbatim>\<open>init\<close> then calls \<^verbatim>\<open>updateUI\<close>, which saves: when
  rendering does not throw, \<^verbatim>\<open>init\<close> writes the serialization of the loaded state once
  (with no stored item, the default state), and when rendering throws it ends with what
  \<^verbatim>\<open>load\<close> left.
\<close>

theorem init_writes_loaded_deck:
  "storage (load E w) = storage w \<and> writes (load E w) = writes w
   \<and> (\<not> renderSlides_throws E (state (load E w)) \<longrightarrow>
        init E w = (None, save E (load E w))
        \<and> writes (snd (init E w)) = Suc (writes w)
        \<and> storage (snd (init E w)) = Some (JSON_stringify E (state (load E w))))
   \<and> (renderSlides_throws E (state (load E w)) \<longrightarrow> init E w = (Some TypeError, load E w))
   \<and> (storage w = None \<longrightarrow> storage (snd (init E w)) = Some (JSON_stringify E (default_state E)))"
proof -
  have d: "storage w = None \<Longrightarrow> state (load E w) = default_state E"
    by (simp add: load_no_item)
  have f: "storage (load E w) = storage w" "writes (load E w) = writes w"
    by (simp_all add: load_frame)
  have a: "init E w = (None, save E (load E w))" if "\<not> renderSlides_throws E (state (load E w))"
    using that by (simp add: init_def Let_def updateUI_def)
  have b: "init E w = (Some TypeError, load E w)" if "renderSlides_throws E (state (load E w))"
    using that by (simp add: init_def Let_def)
  have c: "storage (snd (init E w)) = Some (JSON_stringify E (default_state E))" if "storage w = None"
    using d [OF that] default_renders [of E] by (simp add: init_def Let_def updateUI_def save_def)
  from f a b c show ?thesis by (simp add: save_def)
qed

theorem init_writes_loaded_deck_witness:
  \<open>storage (boot None) = None
   \<and> \<not> renderSlides_throws example_env (state (load example_env (boot None)))
   \<and> init example_env (boot None) = (None, save example_env (load example_env (boot None)))
   \<and> writes (snd (init example_env (boot None))) = Suc (writes (boot None))
   \<and> storage (snd (init example_env (boot None)))
       = Some (JSON_stringify example_env (default_state example_env))
   \<and> renderSlides_throws example_env (state (load example_env (boot (Some ''{"slides":[null]}''))))
   \<and> init example_env (boot (Some ''{"slides":[null]}''))
       = (Some TypeError, load example_env (boot (Some ''{"slides":[null]}'')))\<close>
proof -
  have n: "storage (boot None) = None" by (simp add: boot_def)
  have a: "\<not> renderSlides_throws example_env (state (load example_env (boot None)))"
    by (simp add: load_no_item n default_renders)
  have b: \<open>renderSlides_throws example_env (state (load example_env (boot (Some ''{"slides":[null]}''))))\<close>
    by (simp add: load_def boot_def example_env_def example_parse_def text_two_def
        clamp_current_def or_else_def Math_max_def Math_min_def renderSlides_throws_def)
  note T = init_writes_loaded_deck [of example_env "boot None"]
  note U = init_writes_loaded_deck [of example_env \<open>boot (Some ''{"slides":[null]}'')\<close>]
  from T a have A1: "init example_env (boot None) = (None, save example_env (load example_env (boot None)))"
    by blast
  from T a have A2: "writes (snd (init example_env (boot None))) = Suc (writes (boot None))"
    by blast
  from T n have A3: "storage (snd (init example_env (boot None)))
       = Some (JSON_stringify example_env (default_state example_env))"
    by blast
  from U b have B1: \<open>init example_env (boot (Some ''{"slides":[null]}''))
       = (Some TypeError, load example_env (boot (Some ''{"slides":[null]}'')))\<close>
    by blast
  from n a A1 A2 A3 b B1 show ?thesis by (intro conjI)
qed

text \<open>The claim as stated fails: with no stored item, \<^verbatim>\<open>init\<close> writes one.\<close>

theorem init_writes_on_empty_storage:
  "writes (snd (init example_env (boot None))) \<noteq> writes (boot None)
   \<and> storage (snd (init example_env (boot None))) \<noteq> storage (boot None)"
  by (simp add: init_def Let_def load_def updateUI_def save_def boot_def renderSlides_throws_def
      default_state_def defaultSlides_def or_else_def)

subsection \<open>Import\<close>

lemma normalize_slide_Some:
  assumes "s \<noteq> JNull" "s \<noteq> JUndefined"
  shows "normalize_slide E n s =
           Some (JObj [(''id'', if truthy (field s ''id'') then field s ''id'' else JStr (gen E n)),
                       (''text'', or_else (field s ''text'') (JStr []))],
                 if truthy (field s ''id'') then n else Suc n)"
proof -
  from assms obtain i t where "get_prop s ''id'' = Some i" "get_prop s ''text'' = Some t"
    by (cases s) auto
  then show ?thesis by (simp add: normalize_slide_def field_def)
qed

lemma normalize_slide_None: "s = JNull \<or> s = JUndefined \<Longrightarrow> normalize_slide E n s = None"
  by (auto simp: normalize_slide_def)

lemma idless_Cons: "idless (s # ss) = (if truthy (field s ''id'') then 0 else 1) + idless ss"
  by (simp add: idless_def)

lemma idless_Nil: "idless [] = 0"
  by (simp add: idless_def)

lemma map_slides_exact:
  assumes "\<forall>s \<in> set xs. s \<noteq> JNull \<and> s \<noteq> JUndefined"
  shows "\<exists>ys. map_slides E n xs = (Some ys, n + idless xs) \<and> length ys = length xs
           \<and> (\<forall>i < length xs.
                 ys ! i = JObj [(''id'', if truthy (field (xs ! i) ''id'') then field (xs ! i) ''id''
                                         else JStr (gen E (n + idless (take i xs)))),
                                (''text'', or_else (field (xs ! i) ''text'') (JStr []))])"
  using assms
proof (induction xs arbitrary: n)
  case Nil
  then show ?case by (simp add: idless_Nil)
next
  case (Cons s ss)
  let ?n1 = "if truthy (field s ''id'') then n else Suc n"
  let ?y = "JObj [(''id'', if truthy (field s ''id'') then field s ''id'' else JStr (gen E n)),
                  (''text'', or_else (field s ''text'') (JStr []))]"
  from Cons.prems have ns: "normalize_slide E n s = Some (?y, ?n1)"
    by (simp add: normalize_slide_Some)
  from Cons.prems have "\<forall>s \<in> set ss. s \<noteq> JNull \<and> s \<noteq> JUndefined" by simp
  from Cons.IH [OF this, of ?n1] obtain ys where
    ms: "map_slides E ?n1 ss = (Some ys, ?n1 + idless ss)" and len: "length ys = length ss"
    and el: "\<forall>i < length ss.
                 ys ! i = JObj [(''id'', if truthy (field (ss ! i) ''id'') then field (ss ! i) ''id''
                                         else JStr (gen E (?n1 + idless (take i ss)))),
                                (''text'', or_else (field (ss ! i) ''text'') (JStr []))]"
    by blast
  have c: "?n1 + k = n + ((if truthy (field s ''id'') then 0 else 1) + k)" for k by simp
  have m: "map_slides E n (s # ss) = (Some (?y # ys), n + idless (s # ss))"
    using ns ms by (simp add: idless_Cons)
  have "(?y # ys) ! i = JObj [(''id'', if truthy (field ((s # ss) ! i) ''id'') then field ((s # ss) ! i) ''id''
                                         else JStr (gen E (n + idless (take i (s # ss))))),
                                (''text'', or_else (field ((s # ss) ! i) ''text'') (JStr []))]"
    if "i < length (s # ss)" for i
  proof (cases i)
    case 0
    then show ?thesis by (simp add: idless_Nil)
  next
    case (Suc j)
    with that have j: "j < length ss" by simp
    from el j have "ys ! j = JObj [(''id'', if truthy (field (ss ! j) ''id'') then field (ss ! j) ''id''
                                         else JStr (gen E (?n1 + idless (take j ss)))),
                                (''text'', or_else (field (ss ! j) ''text'') (JStr []))]"
      by blast
    then show ?thesis
      unfolding Suc by (simp add: idless_Cons c)
  qed
  with m len show ?case by simp
qed

lemma idless_append: "idless (a @ b) = idless a + idless b"
  by (simp add: idless_def)

text \<open>Two slides without an id get the values of two different calls of \<^verbatim>\<open>genId\<close>.\<close>

lemma idless_take_strict:
  assumes "i < j" and "j \<le> length xs" and "\<not> truthy (field (xs ! i) ''id'')"
  shows "idless (take i xs) < idless (take j xs)"
proof -
  from assms(1) have a: "take j xs = take i xs @ take (j - i) (drop i xs)"
    by (simp add: take_add [symmetric])
  from assms(1,2) have b: "drop i xs = xs ! i # drop (Suc i) xs"
    by (simp add: Cons_nth_drop_Suc)
  from assms(1) have c: "j - i = Suc (j - Suc i)" by simp
  show ?thesis
    unfolding a b c using assms(3) by (simp add: idless_append idless_Cons)
qed

lemma map_slides_null:
  "JNull \<in> set xs \<or> JUndefined \<in> set xs \<Longrightarrow> fst (map_slides E n xs) = None"
proof (induction xs arbitrary: n)
  case Nil
  then show ?case by simp
next
  case (Cons s ss)
  show ?case
  proof (cases "normalize_slide E n s")
    case None
    then show ?thesis by simp
  next
    case (Some p)
    then have "s \<noteq> JNull \<and> s \<noteq> JUndefined" by (auto simp: normalize_slide_def)
    with Cons.prems have "JNull \<in> set ss \<or> JUndefined \<in> set ss" by auto
    from Cons.IH [OF this] have "fst (map_slides E (snd p) ss) = None" .
    with Some show ?thesis
      by (cases p; cases "map_slides E (snd p) ss") (auto split: option.splits)
  qed
qed

lemma render_not_null: "\<not> slide_render_throws E s \<Longrightarrow> s \<noteq> JNull \<and> s \<noteq> JUndefined"
  by (cases s) auto

lemma slide_render_normalized:
  assumes "s \<noteq> JNull" "s \<noteq> JUndefined"
  shows "slide_render_throws E (JObj [(''id'', idv), (''text'', or_else (field s ''text'') (JStr []))])
         = slide_render_throws E s"
proof -
  from assms obtain t where t: "get_prop s ''text'' = Some t" by (cases s) auto
  then show ?thesis by (simp add: field_def or_else_idem)
qed

lemma import_ok:
  assumes p: "JSON_parse E text = Some data" and s: "slides_of data = Some xs"
    and r: "\<forall>s \<in> set xs. \<not> slide_render_throws E s"
    and c: "get_prop data ''current'' = Some c" and n: "number_like c"
  shows "\<exists>ys. length ys = length xs
           \<and> (\<forall>i < length xs.
                 ys ! i = JObj [(''id'', if truthy (field (xs ! i) ''id'') then field (xs ! i) ''id''
                                         else JStr (gen E (next_id w + idless (take i xs)))),
                                (''text'', or_else (field (xs ! i) ''text'') (JStr []))])
           \<and> onImportFile E text w =
               (None, save E (w\<lparr>state := set_prop (set_prop data ''slides'' (JArr ys)) ''current''
                                            (JNum (Fin (clamp_number c (length xs)))),
                               next_id := next_id w + idless xs\<rparr>))"
proof -
  from s obtain kvs where d: "data = JObj kvs" using slides_of_obj by blast
  from s have sl: "get_prop data ''slides'' = Some (JArr xs)"
    by (auto simp: slides_of_def split: option.splits jsval.splits)
  from r have nn: "\<forall>s \<in> set xs. s \<noteq> JNull \<and> s \<noteq> JUndefined"
    using render_not_null by blast
  from map_slides_exact [OF nn, of E "next_id w"] obtain ys where
    ms: "map_slides E (next_id w) xs = (Some ys, next_id w + idless xs)" and len: "length ys = length xs"
    and el: "\<forall>i < length xs.
                 ys ! i = JObj [(''id'', if truthy (field (xs ! i) ''id'') then field (xs ! i) ''id''
                                         else JStr (gen E (next_id w + idless (take i xs)))),
                                (''text'', or_else (field (xs ! i) ''text'') (JStr []))]"
    by blast
  let ?st2 = "set_prop data ''slides'' (JArr ys)"
  have c2: "get_prop ?st2 ''current'' = Some c"
    using c d by (simp add: map_of_assign)
  from clamp_current_number [OF c2 n, of E "length ys"] len
  have q: "clamp_current E ?st2 (length ys) = Some (Fin (clamp_number c (length xs)))" by simp
  let ?st3 = "set_prop ?st2 ''current'' (JNum (Fin (clamp_number c (length xs))))"
  have s3: "get_prop ?st3 ''slides'' = Some (JArr ys)"
    using d by (simp add: map_of_assign)
  have "\<not> slide_render_throws E y" if "y \<in> set ys" for y
  proof -
    from that obtain i where i: "i < length ys" "y = ys ! i" by (auto simp: in_set_conv_nth)
    with len el obtain idv where
      "y = JObj [(''id'', idv), (''text'', or_else (field (xs ! i) ''text'') (JStr []))]"
      by auto
    moreover from i len nn have "xs ! i \<noteq> JNull" "xs ! i \<noteq> JUndefined" by auto
    moreover from i len r have "\<not> slide_render_throws E (xs ! i)" by auto
    ultimately show ?thesis using slide_render_normalized by simp
  qed
  then have rn: "\<not> renderSlides_throws E ?st3"
    using s3 by (simp add: renderSlides_throws_def list_ex_iff)
  have "onImportFile E text w = (None, save E (w\<lparr>state := ?st3, next_id := next_id w + idless xs\<rparr>))"
    using p sl ms q rn by (cases w) (simp add: onImportFile_def Let_def updateUI_def save_def)
  with len el show ?thesis by blast
qed

text \<open>An import that fails before \<^verbatim>\<open>state = data\<close> changes nothing.\<close>

lemma import_rejected_unchanged:
  assumes "JSON_parse E text = None \<or> (\<exists>data. JSON_parse E text = Some data \<and> slides_of data = None)"
  shows "fst (onImportFile E text w) \<noteq> None \<and> snd (onImportFile E text w) = w"
proof (cases "JSON_parse E text")
  case None
  then show ?thesis by (simp add: onImportFile_def)
next
  case (Some data)
  with assms have n: "slides_of data = None" by simp
  show ?thesis
  proof (cases "get_prop data ''slides''")
    case None
    with Some show ?thesis by (simp add: onImportFile_def)
  next
    case (Some v)
    with n have "\<forall>xs. v \<noteq> JArr xs" by (cases v) (simp_all add: slides_of_def)
    with Some \<open>JSON_parse E text = Some data\<close> show ?thesis
      by (cases v) (simp_all add: onImportFile_def)
  qed
qed

text \<open>
  An import that fails on a null slide has replaced the state by the document it read.
\<close>

lemma import_null_slide:
  assumes "JSON_parse E text = Some data" and "slides_of data = Some xs" and "JNull \<in> set xs"
  shows "fst (onImportFile E text w) = Some TypeError \<and> state (snd (onImportFile E text w)) = data"
proof -
  from assms(2) have sl: "get_prop data ''slides'' = Some (JArr xs)"
    by (auto simp: slides_of_def split: option.splits jsval.splits)
  from assms(3) have "fst (map_slides E (next_id w) xs) = None"
    by (simp add: map_slides_null)
  then obtain n where "map_slides E (next_id w) xs = (None, n)"
    by (cases "map_slides E (next_id w) xs") simp
  with assms(1) sl show ?thesis by (simp add: onImportFile_def Let_def)
qed

text \<open>
  C4. The claim: every import of a document whose \<^verbatim>\<open>slides\<close> is the empty array ends
  with current -1. As amended: importing a document whose \<^verbatim>\<open>slides\<close> is the empty
  array and whose \<^verbatim>\<open>current\<close> is missing, null, a boolean or a number raises nothing:
  the state becomes a document with no slide and current -1, and it is saved;
  \<^verbatim>\<open>load\<close> on the same text takes the default state instead.
\<close>

theorem import_empty_slides:
  assumes "JSON_parse E text = Some data" and "slides_of data = Some []"
    and "get_prop data ''current'' = Some c" and "number_like c"
  shows "fst (onImportFile E text w) = None
         \<and> slides_of (state (snd (onImportFile E text w))) = Some []
         \<and> get_prop (state (snd (onImportFile E text w))) ''current'' = Some (JNum (Fin (- 1)))
         \<and> storage (snd (onImportFile E text w))
             = Some (JSON_stringify E (state (snd (onImportFile E text w))))
         \<and> (storage v = Some text \<longrightarrow> state (load E v) = default_state E)"
proof -
  from assms(2) obtain kvs where d: "data = JObj kvs" using slides_of_obj by blast
  have r: "\<forall>s \<in> set ([]::jsval list). \<not> slide_render_throws E s" by simp
  from import_ok [OF assms(1) assms(2) r assms(3) assms(4), of w]
  have i: "onImportFile E text w =
               (None, save E (w\<lparr>state := set_prop (set_prop data ''slides'' (JArr [])) ''current''
                                            (JNum (Fin (clamp_number c 0))),
                               next_id := next_id w + idless []\<rparr>))"
    by auto
  have q1: "clamp_number c 0 = - 1" using assms(4) by (rule clamp_number_empty)
  have l: "state (load E v) = default_state E" if "storage v = Some text"
    using that assms(1,2) by (simp add: load_no_slides)
  from i q1 d l show ?thesis
    by (simp add: save_def slides_of_def map_of_assign)
qed

theorem import_empty_slides_witness:
  \<open>JSON_parse example_env ''{"slides":[],"current":0}''
     = Some (JObj [(''slides'', JArr []), (''current'', JNum (Fin 0))])
   \<and> slides_of (JObj [(''slides'', JArr []), (''current'', JNum (Fin 0))]) = Some []
   \<and> get_prop (JObj [(''slides'', JArr []), (''current'', JNum (Fin 0))]) ''current'' = Some (JNum (Fin 0))
   \<and> number_like (JNum (Fin 0))
   \<and> fst (onImportFile example_env ''{"slides":[],"current":0}'' live_two) = None
   \<and> slides_of (state (snd (onImportFile example_env ''{"slides":[],"current":0}'' live_two))) = Some []
   \<and> get_prop (state (snd (onImportFile example_env ''{"slides":[],"current":0}'' live_two))) ''current''
       = Some (JNum (Fin (- 1)))
   \<and> storage (boot (Some ''{"slides":[],"current":0}'')) = Some ''{"slides":[],"current":0}''
   \<and> state (load example_env (boot (Some ''{"slides":[],"current":0}''))) = default_state example_env\<close>
proof -
  let ?data = "JObj [(''slides'', JArr []), (''current'', JNum (Fin 0))]"
  have h1: \<open>JSON_parse example_env ''{"slides":[],"current":0}'' = Some ?data\<close>
    by (simp add: example_env_def example_parse_def text_two_def)
  have h2: "slides_of ?data = Some []" by (simp add: slides_of_def)
  have h3: "get_prop ?data ''current'' = Some (JNum (Fin 0))" by simp
  have h4: "number_like (JNum (Fin 0))" by simp
  have h5: \<open>storage (boot (Some ''{"slides":[],"current":0}'')) = Some ''{"slides":[],"current":0}''\<close>
    by (simp add: boot_def)
  from import_empty_slides [OF h1 h2 h3 h4, of live_two \<open>boot (Some ''{"slides":[],"current":0}'')\<close>] h1 h2 h3 h4 h5
  show ?thesis by simp
qed

text \<open>
  The claim as stated fails: with a \<^verbatim>\<open>current\<close> that is a string and no numeral the
  import succeeds and leaves \<^verbatim>\<open>current\<close> NaN.
\<close>

theorem import_empty_slides_nan_current:
  \<open>slides_of (JObj [(''slides'', JArr []), (''current'', JStr ''abc'')]) = Some []
   \<and> JSON_parse example_env ''{"slides":[],"current":"abc"}''
       = Some (JObj [(''slides'', JArr []), (''current'', JStr ''abc'')])
   \<and> fst (onImportFile example_env ''{"slides":[],"current":"abc"}'' live_two) = None
   \<and> get_prop (state (snd (onImportFile example_env ''{"slides":[],"current":"abc"}'' live_two))) ''current''
       = Some (JNum NaN)\<close>
  by (simp add: onImportFile_def Let_def example_env_def example_parse_def text_two_def slides_of_def
      clamp_current_def or_else_def Math_max_def Math_min_def renderSlides_throws_def updateUI_def save_def)

text \<open>
  C7. The claim: every import whose \<^verbatim>\<open>slides\<close> is an array succeeds. As amended: when
  no entry of \<^verbatim>\<open>slides\<close> is null (and each text can be displayed) and \<^verbatim>\<open>current\<close>
  is missing, null, a boolean or a number, the import succeeds. Slide \<open>i\<close> becomes an
  object with an id and a text: its own id when truthy, else the value of a call of
  \<^verbatim>\<open>genId\<close> of its own (the calls are made in the order of the slides, one for each
  slide without an id, so two such slides get two different calls); its own text when
  truthy, else the empty string. \<^verbatim>\<open>current\<close> becomes
  \<open>min (max 0 current) (length - 1)\<close>, which lies in the range of the slides when there
  is one. The state is saved.
\<close>

theorem import_normalizes_slides:
  assumes "JSON_parse E text = Some data" and "slides_of data = Some xs"
    and "\<forall>s \<in> set xs. \<not> slide_render_throws E s"
    and "get_prop data ''current'' = Some c" and "number_like c"
  shows "fst (onImportFile E text w) = None
         \<and> (\<exists>ys. slides_of (state (snd (onImportFile E text w))) = Some ys
                \<and> length ys = length xs
                \<and> (\<forall>i < length xs.
                      ys ! i = JObj [(''id'', if truthy (field (xs ! i) ''id'') then field (xs ! i) ''id''
                                              else JStr (gen E (next_id w + idless (take i xs)))),
                                     (''text'', or_else (field (xs ! i) ''text'') (JStr []))]))
         \<and> next_id (snd (onImportFile E text w)) = next_id w + idless xs
         \<and> (\<forall>i j. i < j \<and> j < length xs \<and> \<not> truthy (field (xs ! i) ''id'')
                \<longrightarrow> idless (take i xs) < idless (take j xs))
         \<and> get_prop (state (snd (onImportFile E text w))) ''current''
             = Some (JNum (Fin (clamp_number c (length xs))))
         \<and> (xs \<noteq> [] \<longrightarrow> 0 \<le> clamp_number c (length xs) \<and> clamp_number c (length xs) \<le> real (length xs) - 1)
         \<and> (\<forall>i. c = JNum (Fin (of_int i))
                \<longrightarrow> clamp_number c (length xs) = of_int (clamp i 0 (int (length xs) - 1)))
         \<and> storage (snd (onImportFile E text w))
             = Some (JSON_stringify E (state (snd (onImportFile E text w))))"
proof -
  from assms(2) obtain kvs where d: "data = JObj kvs" using slides_of_obj by blast
  let ?w' = "snd (onImportFile E text w)"
  from import_ok [OF assms, of w]
  obtain ys where len: "length ys = length xs"
    and el: "\<forall>i < length xs.
                 ys ! i = JObj [(''id'', if truthy (field (xs ! i) ''id'') then field (xs ! i) ''id''
                                         else JStr (gen E (next_id w + idless (take i xs)))),
                                (''text'', or_else (field (xs ! i) ''text'') (JStr []))]"
    and i: "onImportFile E text w =
               (None, save E (w\<lparr>state := set_prop (set_prop data ''slides'' (JArr ys)) ''current''
                                            (JNum (Fin (clamp_number c (length xs)))),
                               next_id := next_id w + idless xs\<rparr>))"
    by blast
  have st: "state ?w' = set_prop (set_prop data ''slides'' (JArr ys)) ''current''
                          (JNum (Fin (clamp_number c (length xs))))"
    and ni: "next_id ?w' = next_id w + idless xs"
    and sg: "storage ?w' = Some (JSON_stringify E (state ?w'))"
    and ok: "fst (onImportFile E text w) = None"
    using i by (simp_all add: save_def)
  have s1: "slides_of (state ?w') = Some ys"
    using st d by (simp add: slides_of_def map_of_assign)
  have c1: "get_prop (state ?w') ''current'' = Some (JNum (Fin (clamp_number c (length xs))))"
    using st d by (simp add: map_of_assign)
  from s1 len el have A: "\<exists>ys. slides_of (state ?w') = Some ys
                \<and> length ys = length xs
                \<and> (\<forall>i < length xs.
                      ys ! i = JObj [(''id'', if truthy (field (xs ! i) ''id'') then field (xs ! i) ''id''
                                              else JStr (gen E (next_id w + idless (take i xs)))),
                                     (''text'', or_else (field (xs ! i) ''text'') (JStr []))])"
    by blast
  have B: "\<forall>i j. i < j \<and> j < length xs \<and> \<not> truthy (field (xs ! i) ''id'')
                \<longrightarrow> idless (take i xs) < idless (take j xs)"
    using idless_take_strict by (simp add: less_imp_le)
  have C: "xs \<noteq> [] \<longrightarrow> 0 \<le> clamp_number c (length xs) \<and> clamp_number c (length xs) \<le> real (length xs) - 1"
    using clamp_number_bounds [of "length xs" c] by simp
  have D: "\<forall>i. c = JNum (Fin (of_int i))
                \<longrightarrow> clamp_number c (length xs) = of_int (clamp i 0 (int (length xs) - 1))"
    using clamp_number_int by simp
  from ok A ni B c1 C D sg show ?thesis by (intro conjI)
qed

theorem import_normalizes_slides_witness:
  \<open>JSON_parse example_env ''{"slides":[{"text":"A"}],"current":99}''
     = Some (JObj [(''slides'', JArr [JObj [(''text'', JStr ''A'')]]), (''current'', JNum (Fin 99))])
   \<and> slides_of (JObj [(''slides'', JArr [JObj [(''text'', JStr ''A'')]]), (''current'', JNum (Fin 99))])
       = Some [JObj [(''text'', JStr ''A'')]]
   \<and> \<not> slide_render_throws example_env (JObj [(''text'', JStr ''A'')])
   \<and> number_like (JNum (Fin 99))
   \<and> fst (onImportFile example_env ''{"slides":[{"text":"A"}],"current":99}'' live_two) = None
   \<and> slides_of (state (snd (onImportFile example_env ''{"slides":[{"text":"A"}],"current":99}'' live_two)))
       = Some [JObj [(''id'', JStr (gen example_env (next_id live_two))), (''text'', JStr ''A'')]]
   \<and> get_prop (state (snd (onImportFile example_env ''{"slides":[{"text":"A"}],"current":99}'' live_two)))
        ''current'' = Some (JNum (Fin 0))
   \<and> storage (snd (onImportFile example_env ''{"slides":[{"text":"A"}],"current":99}'' live_two))
       = Some (JSON_stringify example_env
                 (state (snd (onImportFile example_env ''{"slides":[{"text":"A"}],"current":99}'' live_two))))\<close>
proof -
  let ?data = "JObj [(''slides'', JArr [JObj [(''text'', JStr ''A'')]]), (''current'', JNum (Fin 99))]"
  let ?xs = "[JObj [(''text'', JStr ''A'')]]"
  let ?w' = \<open>snd (onImportFile example_env ''{"slides":[{"text":"A"}],"current":99}'' live_two)\<close>
  have h1: \<open>JSON_parse example_env ''{"slides":[{"text":"A"}],"current":99}'' = Some ?data\<close>
    by (simp add: example_env_def example_parse_def text_two_def)
  have h2: "slides_of ?data = Some ?xs" by (simp add: slides_of_def)
  have r: "\<not> slide_render_throws example_env (JObj [(''text'', JStr ''A'')])"
    by (simp add: or_else_def)
  then have h3: "\<forall>s \<in> set ?xs. \<not> slide_render_throws example_env s" by simp
  have h4: "get_prop ?data ''current'' = Some (JNum (Fin 99))" by simp
  have h5: "number_like (JNum (Fin 99))" by simp
  note T = import_normalizes_slides [OF h1 h2 h3 h4 h5, of live_two]
  from T have ok: \<open>fst (onImportFile example_env ''{"slides":[{"text":"A"}],"current":99}'' live_two) = None\<close>
    by (rule conjunct1)
  from T obtain ys where ys: "slides_of (state ?w') = Some ys" and len: "length ys = length ?xs"
    and el: "\<forall>i < length ?xs.
                      ys ! i = JObj [(''id'', if truthy (field (?xs ! i) ''id'') then field (?xs ! i) ''id''
                                              else JStr (gen example_env (next_id live_two + idless (take i ?xs)))),
                                     (''text'', or_else (field (?xs ! i) ''text'') (JStr []))]"
    by blast
  from el have "ys ! 0 = JObj [(''id'', JStr (gen example_env (next_id live_two))), (''text'', JStr ''A'')]"
    by (simp add: field_def or_else_def idless_def)
  with len have "ys = [JObj [(''id'', JStr (gen example_env (next_id live_two))), (''text'', JStr ''A'')]]"
    by (cases ys) simp_all
  with ys have S: "slides_of (state ?w')
       = Some [JObj [(''id'', JStr (gen example_env (next_id live_two))), (''text'', JStr ''A'')]]"
    by simp
  from T have "get_prop (state ?w') ''current'' = Some (JNum (Fin (clamp_number (JNum (Fin 99)) (length ?xs))))"
    by blast
  then have C: "get_prop (state ?w') ''current'' = Some (JNum (Fin 0))" by simp
  from T have G: "storage ?w' = Some (JSON_stringify example_env (state ?w'))" by blast
  from h1 h2 r h5 ok S C G show ?thesis by (intro conjI)
qed

text \<open>The claim as stated fails: \<^verbatim>\<open>slides\<close> is an array, and the import throws.\<close>

theorem import_null_slide_fails:
  \<open>slides_of (JObj [(''slides'', JArr [JNull])]) = Some [JNull]
   \<and> JSON_parse example_env ''{"slides":[null]}'' = Some (JObj [(''slides'', JArr [JNull])])
   \<and> fst (onImportFile example_env ''{"slides":[null]}'' live_two) = Some TypeError\<close>
  by (simp add: onImportFile_def Let_def example_env_def example_parse_def example_stringify_def doc_two_def text_two_def normalize_slide_def slides_of_def)

text \<open>
  C3. The claim: a failed import leaves the state as it was. On the document without
  \<^verbatim>\<open>slides\<close> it does; on a document whose \<^verbatim>\<open>slides\<close> holds null the import fails
  with a TypeError after \<^verbatim>\<open>state = data\<close>, and the state is the imported document.
\<close>

theorem import_failure_replaces_state:
  \<open>onImportFile example_env ''{"current":0}'' live_two = (Some FormatError, live_two)
   \<and> onImportFile example_env ''{"slides":[null]}'' live_two
       = (Some TypeError, live_two\<lparr>state := JObj [(''slides'', JArr [JNull])]\<rparr>)
   \<and> state (snd (onImportFile example_env ''{"slides":[null]}'' live_two)) \<noteq> state live_two\<close>
  by (simp add: onImportFile_def Let_def example_env_def example_parse_def example_stringify_def doc_two_def text_two_def normalize_slide_def live_two_def two_slides_def
      val_of_deck_def val_of_slide_def)

end
